theory Spec2Isabelle
  imports Complex_Main "HOL-Library.AList"
begin

section \<open>JavaScript values\<close>

text \<open>
  The bulb proxy (\<^verbatim>\<open>SmartBulb\<close>) and the discovery service (\<^verbatim>\<open>BulbDiscovery\<close>) are
  TypeScript classes driven by callbacks: socket messages, timers and method calls.
  Their interfaces are erased at run time, so what arrives in a datagram is whatever
  \<^verbatim>\<open>JSON.parse\<close> returns. The model therefore works on untyped JavaScript values.

  A \<^verbatim>\<open>number\<close> is a double. The code only compares numbers with constants and copies
  them, so a number is modelled by its exact value: a rational, or one of the three
  special values. Comparisons follow IEEE 754: every comparison with \<open>NaN\<close> is false.
\<close>

datatype jsnum = Fin rat | NaN | PosInf | NegInf

fun js_lt :: "jsnum \<Rightarrow> jsnum \<Rightarrow> bool" where
  "js_lt (Fin a) (Fin b) = (a < b)"
| "js_lt (Fin a) PosInf = True"
| "js_lt NegInf (Fin b) = True"
| "js_lt NegInf PosInf = True"
| "js_lt _ _ = False"

definition js_gt :: "jsnum \<Rightarrow> jsnum \<Rightarrow> bool" where
  "js_gt a b = js_lt b a"

datatype jsval =
    JNull
  | JBool bool
  | JNum jsnum
  | JStr string
  | JArr "jsval list"
  | JObj "(string \<times> jsval) list"

text \<open>
  An object is an association list: \<open>map_of\<close> reads a property, \<open>AList.update\<close> writes
  one and \<open>AList.merge\<close> writes the properties of a second object over those of a
  first. \<open>None\<close> stands for \<^verbatim>\<open>undefined\<close>. The order of the entries carries no meaning.
\<close>

type_synonym obj = "(string \<times> jsval) list"

text \<open>Property access \<^verbatim>\<open>v.k\<close> on a value other than \<^verbatim>\<open>null\<close> (on \<^verbatim>\<open>null\<close> it throws, which
  the callers below handle before they read a property).\<close>

fun get_prop :: "jsval \<Rightarrow> string \<Rightarrow> jsval option" where
  "get_prop (JObj kvs) k = map_of kvs k"
| "get_prop _ k = None"

text \<open>Truthiness, as \<^verbatim>\<open>if (v)\<close>, \<^verbatim>\<open>v && w\<close> and \<^verbatim>\<open>v || w\<close> test it.\<close>

fun truthy :: "jsval option \<Rightarrow> bool" where
  "truthy None = False"
| "truthy (Some JNull) = False"
| "truthy (Some (JBool b)) = b"
| "truthy (Some (JNum n)) = (n \<noteq> Fin 0 \<and> n \<noteq> NaN)"
| "truthy (Some (JStr s)) = (s \<noteq> [])"
| "truthy (Some (JArr xs)) = True"
| "truthy (Some (JObj kvs)) = True"

text \<open>\<^verbatim>\<open>typeof v === 'object'\<close>.\<close>

fun typeof_object :: "jsval \<Rightarrow> bool" where
  "typeof_object JNull = True"
| "typeof_object (JArr xs) = True"
| "typeof_object (JObj kvs) = True"
| "typeof_object _ = False"

subsection \<open>Number and value to string\<close>

definition digit_char :: "nat \<Rightarrow> char" where
  "digit_char d = char_of (48 + d)"

function show_nat :: "nat \<Rightarrow> string" where
  "show_nat n = (if n < 10 then [digit_char n]
                 else show_nat (n div 10) @ [digit_char (n mod 10)])"
  by pat_completeness auto
termination
  by (relation "measure (\<lambda>n. n)") auto

declare show_nat.simps [simp del]



text \<open>
  The conversion of a value to a string, which a template literal \<^verbatim>\<open>`${v}`\<close> and the
  constructor \<^verbatim>\<open>new Error(v)\<close> apply, throws a \<^verbatim>\<open>TypeError\<close> for some values. A parsed
  object holds no function, so its own property \<^verbatim>\<open>toString\<close>, when it has one, hides
  the inherited method and cannot be called, and \<^verbatim>\<open>valueOf\<close> yields no primitive:
  the conversion throws. An array joins the conversions of its elements and throws
  when one of them does. Everything else converts.
\<close>

fun stringifiable :: "jsval \<Rightarrow> bool" where
  "stringifiable (JArr xs) = (\<forall>x \<in> set xs. stringifiable x)"
| "stringifiable (JObj kvs) = (map_of kvs ''toString'' = None)"
| "stringifiable _ = True"




subsection \<open>Object spread\<close>

text \<open>
  The own enumerable properties that \<^verbatim>\<open>{...v}\<close> copies: the properties of an object,
  the indexed elements of an array, the indexed characters of a string, and nothing
  for \<^verbatim>\<open>undefined\<close>, \<^verbatim>\<open>null\<close>, booleans and numbers.
\<close>

definition indexed :: "jsval list \<Rightarrow> obj" where
  "indexed xs = zip (map show_nat [0..<length xs]) xs"

fun spread :: "jsval option \<Rightarrow> obj" where
  "spread (Some (JObj kvs)) = kvs"
| "spread (Some (JArr xs)) = indexed xs"
| "spread (Some (JStr s)) = indexed (map (\<lambda>c. JStr [c]) s)"
| "spread _ = []"

section \<open>The bulb proxy (SmartBulb)\<close>

record BulbConfig =
  ip :: string
  port :: jsnum
  timeout :: "nat option"

text \<open>
  A command as the methods build it. The identifier is attached by \<open>sendCommand\<close>.
\<close>

record BulbCommand =
  command :: string
  params :: "obj option"

text \<open>
  \<open>Error v\<close> is \<^verbatim>\<open>new Error(v)\<close>, kept with the argument as given; it exists only for an
  argument that converts to a string. \<open>SocketError\<close> is an error of the socket, named
  by its code: one that \<^verbatim>\<open>send\<close> or \<^verbatim>\<open>close\<close> throws, or one that the callback of \<^verbatim>\<open>send\<close>
  receives. \<open>TypeError\<close> is the error of a failed conversion.
\<close>

datatype error = Error jsval | SocketError string | TypeError

datatype outcome = Resolved jsval | Rejected error

text \<open>
  The fields \<open>config\<close>, \<open>lastStatus\<close> and \<open>pendingCommands\<close> are those of the class.
  Every call of \<open>sendCommand\<close> creates one promise, one timer and one closure over its
  identifier: the call is named by its number \<open>h\<close>, and an entry of \<open>pendingCommands\<close>
  maps an identifier to that number, which stands for the triple
  \<^verbatim>\<open>{resolve, reject, timeout}\<close> of the call. The remaining fields are the environment:
  \<^item> \<open>issued ! h\<close> is the identifier that call \<open>h\<close> closed over;
  \<^item> \<open>timers\<close> holds the calls whose timer is armed (set and not yet cleared or fired);
  \<^item> \<open>settled\<close> lists every call of a \<^verbatim>\<open>resolve\<close> or \<^verbatim>\<open>reject\<close> function, oldest first;
  \<^item> \<open>sent\<close> lists the datagrams given to the socket: the object that is serialised,
    the port and the address;
  \<^item> \<open>socket_closed\<close> tells whether the socket has been closed.
\<close>

record SmartBulb =
  config :: BulbConfig
  lastStatus :: obj
  pendingCommands :: "(string \<times> nat) list"
  issued :: "string list"
  timers :: "nat set"
  settled :: "(nat \<times> outcome) list"
  sent :: "(jsval \<times> jsnum \<times> string) list"
  socket_closed :: bool

text \<open>A promise takes the first outcome it is given; later calls change nothing.\<close>

definition promise :: "SmartBulb \<Rightarrow> nat \<Rightarrow> outcome option" where
  "promise s h = map_of (settled s) h"

definition SmartBulb_new :: "BulbConfig \<Rightarrow> SmartBulb" where
  "SmartBulb_new cfg =
     \<lparr> config = cfg\<lparr> timeout := Some (case timeout cfg of None \<Rightarrow> 5000 | Some t \<Rightarrow> t) \<rparr>,
       lastStatus =
         [ (''power'', JBool False),
           (''brightness'', JNum (Fin 0)),
           (''color'', JObj [ (''r'', JNum (Fin 255)), (''g'', JNum (Fin 255)),
                              (''b'', JNum (Fin 255)) ]),
           (''connected'', JBool False) ],
       pendingCommands = [],
       issued = [],
       timers = {},
       settled = [],
       sent = [],
       socket_closed = False \<rparr>"

definition settle :: "nat \<Rightarrow> outcome \<Rightarrow> SmartBulb \<Rightarrow> SmartBulb" where
  "settle h out s = s\<lparr> settled := settled s @ [(h, out)] \<rparr>"

definition clearTimeout :: "nat \<Rightarrow> SmartBulb \<Rightarrow> SmartBulb" where
  "clearTimeout h s = s\<lparr> timers := timers s - {h} \<rparr>"

definition pending_delete :: "string \<Rightarrow> SmartBulb \<Rightarrow> SmartBulb" where
  "pending_delete k s = s\<lparr> pendingCommands := AList.delete k (pendingCommands s) \<rparr>"

text \<open>\<^verbatim>\<open>{ ...this.lastStatus, ...data, connected: true }\<close>; no listener of the
  \<^verbatim>\<open>statusUpdate\<close> event exists in the repository.\<close>

definition updateStatus :: "jsval \<Rightarrow> SmartBulb \<Rightarrow> SmartBulb" where
  "updateStatus data s =
     s\<lparr> lastStatus :=
          AList.update ''connected'' (JBool True)
            (AList.merge (lastStatus s) (spread (Some data))) \<rparr>"

text \<open>\<^verbatim>\<open>response.error || 'Unknown error'\<close>\<close>

definition error_or_default :: "jsval \<Rightarrow> jsval" where
  "error_or_default response =
     (case get_prop response ''error'' of
        Some e \<Rightarrow> if truthy (Some e) then e else JStr ''Unknown error''
      | None \<Rightarrow> JStr ''Unknown error'')"

text \<open>
  \<open>handleResponse\<close> is two statements. The first, \<open>match_pending\<close>, looks the identifier
  up: \<^verbatim>\<open>response.id && this.pendingCommands.has(response.id)\<close> holds only for a
  non-empty string that is a key of the table, since the keys are strings. It clears
  the timer and deletes the entry, and then resolves the call or builds the error
  and rejects it. Building the error converts its argument to a string; when that
  throws, \<open>reject\<close> is never called and the exception leaves \<open>handleResponse\<close>.
\<close>

definition match_pending :: "jsval \<Rightarrow> SmartBulb \<Rightarrow> (error + unit) \<times> SmartBulb" where
  "match_pending response s =
     (case get_prop response ''id'' of
        Some (JStr k) \<Rightarrow>
          (if k \<noteq> [] then
             (case map_of (pendingCommands s) k of
                Some h \<Rightarrow>
                  (let s' = pending_delete k (clearTimeout h s) in
                   if truthy (get_prop response ''success'')
                   then (Inr (), settle h (Resolved response) s')
                   else if stringifiable (error_or_default response)
                   then (Inr (), settle h (Rejected (Error (error_or_default response))) s')
                   else (Inl TypeError, s'))
              | None \<Rightarrow> (Inr (), s))
           else (Inr (), s))
      | _ \<Rightarrow> (Inr (), s))"

text \<open>The second statement: the status is updated when the response carries an object
  as its \<^verbatim>\<open>data\<close>.\<close>

definition status_push :: "jsval \<Rightarrow> SmartBulb \<Rightarrow> SmartBulb" where
  "status_push response s =
     (case get_prop response ''data'' of
        Some d \<Rightarrow> if truthy (Some d) \<and> typeof_object d then updateStatus d s else s
      | None \<Rightarrow> s)"

definition handleResponse :: "jsval \<Rightarrow> SmartBulb \<Rightarrow> (error + unit) \<times> SmartBulb" where
  "handleResponse response s =
     (case match_pending response s of
        (Inl e, s1) \<Rightarrow> (Inl e, s1)
      | (Inr u, s1) \<Rightarrow> (Inr (), status_push response s1))"

text \<open>
  The listener of the socket's \<^verbatim>\<open>message\<close> event. The argument is the result of
  \<^verbatim>\<open>JSON.parse\<close>: \<open>None\<close> when it throws. Reading \<^verbatim>\<open>response.id\<close> of \<^verbatim>\<open>null\<close> throws as well.
  The \<^verbatim>\<open>catch\<close> block logs what was thrown, also by \<open>handleResponse\<close>, and returns;
  what had been done before the exception stays done.
\<close>

definition on_message :: "jsval option \<Rightarrow> SmartBulb \<Rightarrow> SmartBulb" where
  "on_message parsed s =
     (case parsed of
        None \<Rightarrow> s
      | Some JNull \<Rightarrow> s
      | Some response \<Rightarrow> snd (handleResponse response s))"

text \<open>\<^verbatim>\<open>{ ...command, id }\<close>, the object that is serialised and sent.\<close>

definition commandWithId :: "BulbCommand \<Rightarrow> string \<Rightarrow> jsval" where
  "commandWithId c gid =
     JObj ([(''command'', JStr (command c))]
           @ (case params c of None \<Rightarrow> [] | Some p \<Rightarrow> [(''params'', JObj p)])
           @ [(''id'', JStr gid)])"

text \<open>
  \<^verbatim>\<open>socket.send\<close> throws, instead of reporting to its callback, when the port is not
  an integer from 1 to 65535 and when the socket has been closed.
\<close>

definition valid_port :: "jsnum \<Rightarrow> bool" where
  "valid_port p =
     (case p of Fin q \<Rightarrow> q = of_int \<lfloor>q\<rfloor> \<and> 1 \<le> q \<and> q \<le> 65535 | _ \<Rightarrow> False)"

definition send_throws :: "SmartBulb \<Rightarrow> error option" where
  "send_throws s =
     (if \<not> valid_port (port (config s)) then Some (SocketError ''ERR_SOCKET_BAD_PORT'')
      else if socket_closed s then Some (SocketError ''ERR_SOCKET_DGRAM_NOT_RUNNING'')
      else None)"

text \<open>
  \<open>sendCommand\<close>. The identifier \<open>gid\<close> is what \<open>generateCommandId\<close> returns for this
  call: up to 13 base-36 digits of \<^verbatim>\<open>Math.random()\<close>, drawn without looking at the
  table. Its value is an input of the model. The timer is armed and the call is
  registered before the datagram is given to the socket. When \<^verbatim>\<open>socket.send\<close> throws,
  the promise, in whose executor all this runs, is rejected with what was thrown;
  the entry and the timer stay. The result is the number of the call, on whose
  promise the caller waits.
\<close>

definition sendCommand :: "BulbCommand \<Rightarrow> string \<Rightarrow> SmartBulb \<Rightarrow> nat \<times> SmartBulb" where
  "sendCommand c gid s =
     (let h = length (issued s);
          s1 = s\<lparr> issued := issued s @ [gid],
                  timers := insert h (timers s),
                  pendingCommands := AList.update gid h (pendingCommands s) \<rparr>
      in (h, case send_throws s of
               None \<Rightarrow> s1\<lparr> sent := sent s @ [(commandWithId c gid, port (config s), ip (config s))] \<rparr>
             | Some e \<Rightarrow> settle h (Rejected e) s1))"

text \<open>The timer of call \<open>h\<close> fires; a cleared timer never does.\<close>

definition timer_fires :: "nat \<Rightarrow> SmartBulb \<Rightarrow> SmartBulb" where
  "timer_fires h s =
     (if h \<in> timers s \<and> h < length (issued s)
      then settle h (Rejected (Error (JStr ''Command timeout'')))
             (pending_delete (issued s ! h) (clearTimeout h s))
      else s)"

text \<open>The callback of \<^verbatim>\<open>socket.send\<close> for call \<open>h\<close> is invoked with an error.\<close>

definition send_failed :: "nat \<Rightarrow> string \<Rightarrow> SmartBulb \<Rightarrow> SmartBulb" where
  "send_failed h e s =
     (if h < length (issued s)
      then settle h (Rejected (SocketError e))
             (pending_delete (issued s ! h) (clearTimeout h s))
      else s)"

text \<open>\<open>close\<close>: the loop over the table, then \<^verbatim>\<open>clear()\<close>, then \<^verbatim>\<open>socket.close()\<close>, which
  throws when the socket has been closed before.\<close>

fun close_loop :: "(string \<times> nat) list \<Rightarrow> SmartBulb \<Rightarrow> SmartBulb" where
  "close_loop [] s = s"
| "close_loop ((k, h) # rest) s =
     close_loop rest (settle h (Rejected (Error (JStr ''Connection closed''))) (clearTimeout h s))"

definition close :: "SmartBulb \<Rightarrow> (error + unit) \<times> SmartBulb" where
  "close s =
     (let s1 = (close_loop (pendingCommands s) s)\<lparr> pendingCommands := [] \<rparr> in
      if socket_closed s then (Inl (SocketError ''ERR_SOCKET_DGRAM_NOT_RUNNING''), s1)
      else (Inr (), s1\<lparr> socket_closed := True \<rparr>))"

definition getLastStatus :: "SmartBulb \<Rightarrow> obj" where
  "getLastStatus s = lastStatus s"

subsection \<open>The methods\<close>

text \<open>
  An \<^verbatim>\<open>async\<close> method is split at its \<^verbatim>\<open>await\<close>. The part before it runs when the method
  is called: it either throws (\<open>Inl\<close>) or issues a command and waits for call \<open>h\<close>
  (\<open>Inr h\<close>). The part after it runs when the promise of that call is settled.
\<close>

definition await :: "outcome \<Rightarrow> error + jsval" where
  "await out = (case out of Resolved v \<Rightarrow> Inr v | Rejected e \<Rightarrow> Inl e)"

definition turnOn :: "string \<Rightarrow> SmartBulb \<Rightarrow> nat \<times> SmartBulb" where
  "turnOn gid s =
     sendCommand \<lparr> command = ''set_power'', params = Some [(''power'', JBool True)] \<rparr> gid s"

definition turnOff :: "string \<Rightarrow> SmartBulb \<Rightarrow> nat \<times> SmartBulb" where
  "turnOff gid s =
     sendCommand \<lparr> command = ''set_power'', params = Some [(''power'', JBool False)] \<rparr> gid s"

definition setBrightness :: "jsnum \<Rightarrow> string \<Rightarrow> SmartBulb \<Rightarrow> (error + nat) \<times> SmartBulb" where
  "setBrightness brightness gid s =
     (if js_lt brightness (Fin 0) \<or> js_gt brightness (Fin 100)
      then (Inl (Error (JStr ''Brightness must be between 0 and 100'')), s)
      else (let (h, s') =
                  sendCommand \<lparr> command = ''set_brightness'',
                                params = Some [(''brightness'', JNum brightness)] \<rparr> gid s
            in (Inr h, s')))"

definition setColor ::
  "jsnum \<Rightarrow> jsnum \<Rightarrow> jsnum \<Rightarrow> string \<Rightarrow> SmartBulb \<Rightarrow> (error + nat) \<times> SmartBulb" where
  "setColor r g b gid s =
     (if js_lt r (Fin 0) \<or> js_gt r (Fin 255) \<or> js_lt g (Fin 0) \<or> js_gt g (Fin 255)
         \<or> js_lt b (Fin 0) \<or> js_gt b (Fin 255)
      then (Inl (Error (JStr ''RGB values must be between 0 and 255'')), s)
      else (let (h, s') =
                  sendCommand \<lparr> command = ''set_color'',
                                params = Some [(''color'',
                                  JObj [(''r'', JNum r), (''g'', JNum g), (''b'', JNum b)])] \<rparr>
                    gid s
            in (Inr h, s')))"

text \<open>What a method that only awaits the command gives its caller once call \<open>h\<close> is
  settled: it returns, or it throws the error of the command.\<close>

definition command_result :: "outcome \<Rightarrow> error + unit" where
  "command_result out = (case await out of Inl e \<Rightarrow> Inl e | Inr v \<Rightarrow> Inr ())"







text \<open>
  \<open>getStatus\<close> and \<open>ping\<close>: the command is sent, and the rest of the method runs when
  the promise is settled. The body of the \<^verbatim>\<open>try\<close> block is a function of its own, so
  that what it throws (the rejection at the \<^verbatim>\<open>await\<close>, or reading a property of
  \<^verbatim>\<open>null\<close>) reaches the \<^verbatim>\<open>catch\<close> block as a value.
\<close>

definition getStatus_send :: "string \<Rightarrow> SmartBulb \<Rightarrow> nat \<times> SmartBulb" where
  "getStatus_send gid s = sendCommand \<lparr> command = ''get_status'', params = None \<rparr> gid s"

definition getStatus_try :: "outcome \<Rightarrow> SmartBulb \<Rightarrow> error + (obj \<times> SmartBulb)" where
  "getStatus_try out s =
     (case await out of
        Inl e \<Rightarrow> Inl e
      | Inr response \<Rightarrow>
          if response = JNull then Inl TypeError
          else (let s' = (case get_prop response ''data'' of
                            Some d \<Rightarrow> if truthy (Some d) then updateStatus d s else s
                          | None \<Rightarrow> s)
                in Inr (lastStatus s', s')))"

definition getStatus_resume :: "outcome \<Rightarrow> SmartBulb \<Rightarrow> (error + obj) \<times> SmartBulb" where
  "getStatus_resume out s =
     (case getStatus_try out s of
        Inr (status, s') \<Rightarrow> (Inr status, s')
      | Inl e \<Rightarrow> (Inr (AList.update ''connected'' (JBool False) (lastStatus s)), s))"

definition ping_send :: "string \<Rightarrow> SmartBulb \<Rightarrow> nat \<times> SmartBulb" where
  "ping_send gid s = sendCommand \<lparr> command = ''ping'', params = None \<rparr> gid s"

definition ping_resume :: "outcome \<Rightarrow> error + bool" where
  "ping_resume out = (case await out of Inr response \<Rightarrow> Inr True | Inl e \<Rightarrow> Inr False)"

subsection \<open>Runs of the proxy\<close>

text \<open>
  What happens to a proxy after its construction is a sequence of events: a method
  sends a command, the socket reports a failed send, a timer fires, a datagram
  arrives, a suspended \<open>getStatus\<close> resumes, or the proxy is closed. Each runs to
  completion before the next.
\<close>

datatype event =
    Send BulbCommand string
  | SendFailed nat string
  | TimerFires nat
  | Message "jsval option"
  | GetStatusResumes nat
  | Close

fun step :: "event \<Rightarrow> SmartBulb \<Rightarrow> SmartBulb" where
  "step (Send c gid) s = snd (sendCommand c gid s)"
| "step (SendFailed h e) s = send_failed h e s"
| "step (TimerFires h) s = timer_fires h s"
| "step (Message parsed) s = on_message parsed s"
| "step (GetStatusResumes h) s =
     (case promise s h of None \<Rightarrow> s | Some out \<Rightarrow> snd (getStatus_resume out s))"
| "step Close s = snd (close s)"

definition run :: "event list \<Rightarrow> SmartBulb \<Rightarrow> SmartBulb" where
  "run evs s = fold step evs s"

section \<open>Discovery (BulbDiscovery)\<close>












section \<open>Properties\<close>

subsection \<open>The table of pending commands\<close>

text \<open>The two rejections that a throwing \<^verbatim>\<open>socket.send\<close> causes.\<close>

definition sync_rejection :: "outcome \<Rightarrow> bool" where
  "sync_rejection out =
     (out = Rejected (SocketError ''ERR_SOCKET_BAD_PORT'')
      \<or> out = Rejected (SocketError ''ERR_SOCKET_DGRAM_NOT_RUNNING''))"

text \<open>
  What holds of the table in every state that a run reaches: its keys are distinct,
  and an entry \<open>(k, h)\<close> belongs to a call \<open>h\<close> that was made with identifier \<open>k\<close>,
  whose timer is armed and for which no resolve or reject call has been made other
  than the rejection by a throwing send.
\<close>

definition pending_inv :: "SmartBulb \<Rightarrow> bool" where
  "pending_inv s \<longleftrightarrow>
     distinct (map fst (pendingCommands s))
     \<and> (\<forall>(k, h) \<in> set (pendingCommands s).
          h < length (issued s) \<and> issued s ! h = k \<and> h \<in> timers s
          \<and> (\<forall>out. (h, out) \<in> set (settled s) \<longrightarrow> sync_rejection out))
     \<and> fst ` set (settled s) \<subseteq> {..<length (issued s)}
     \<and> timers s \<subseteq> {..<length (issued s)}"

text \<open>A configuration and a command for the examples.\<close>

definition bulb_config :: BulbConfig where
  "bulb_config = \<lparr> ip = ''192.168.1.45'', port = Fin 4000, timeout = None \<rparr>"

definition ping_command :: BulbCommand where
  "ping_command = \<lparr> command = ''ping'', params = None \<rparr>"

definition status_command :: BulbCommand where
  "status_command = \<lparr> command = ''get_status'', params = None \<rparr>"

text \<open>A reply that reports success, and nothing else, for the command with identifier \<open>k\<close>.\<close>

definition ok_reply :: "string \<Rightarrow> jsval" where
  "ok_reply k = JObj [(''id'', JStr k), (''success'', JBool True)]"

text \<open>
  The test of \<open>handleResponse\<close> as a predicate: the value carries, as its \<^verbatim>\<open>id\<close>, a
  non-empty string that is a key of the table of pending commands.
\<close>

definition names_pending :: "jsval \<Rightarrow> SmartBulb \<Rightarrow> bool" where
  "names_pending v s =
     (case get_prop v ''id'' of
        Some (JStr k) \<Rightarrow> k \<noteq> [] \<and> map_of (pendingCommands s) k \<noteq> None
      | _ \<Rightarrow> False)"

text \<open>A reply to a status query, and a reply that reports a failure.\<close>

definition status_reply :: "string \<Rightarrow> jsval" where
  "status_reply k =
     JObj [(''success'', JBool True), (''id'', JStr k),
           (''data'', JObj [(''power'', JBool True), (''brightness'', JNum (Fin 50))])]"

definition error_reply :: "string \<Rightarrow> jsval" where
  "error_reply k =
     JObj [(''success'', JBool False), (''id'', JStr k), (''error'', JStr ''Unknown command: x'')]"

text \<open>A reply that reports a failure with an object for its \<^verbatim>\<open>error\<close>, and a
  configuration with a port that the socket refuses.\<close>

definition odd_error_reply :: "string \<Rightarrow> jsval" where
  "odd_error_reply k =
     JObj [(''success'', JBool False), (''id'', JStr k),
           (''error'', JObj [(''toString'', JNum (Fin 1))])]"

definition bad_port_config :: BulbConfig where
  "bad_port_config = \<lparr> ip = ''192.168.1.45'', port = Fin 0, timeout = None \<rparr>"

text \<open>The events in which nothing comes back from the device.\<close>

fun no_exchange :: "event \<Rightarrow> bool" where
  "no_exchange (Message parsed) = False"
| "no_exchange (GetStatusResumes h) = False"
| "no_exchange _ = True"










text \<open>A call that no timer, no table entry and no resolve or reject call refers to.\<close>

definition abandoned :: "nat \<Rightarrow> SmartBulb \<Rightarrow> bool" where
  "abandoned h s \<longleftrightarrow>
     h < length (issued s) \<and> h \<notin> timers s \<and> h \<notin> fst ` set (settled s)
     \<and> h \<notin> snd ` set (pendingCommands s)"

text \<open>A reply that reports a failure and carries status data.\<close>

definition busy_reply :: "string \<Rightarrow> jsval" where
  "busy_reply k =
     JObj [(''success'', JBool False), (''id'', JStr k), (''error'', JStr ''busy''),
           (''data'', JObj [(''power'', JBool True)])]"

subsection \<open>The invariant holds in every run\<close>

lemma set_update_cases:
  "(k', v') \<in> set (AList.update k v al) \<Longrightarrow> (k', v') = (k, v) \<or> (k', v') \<in> set al"
  by (induction al) (auto split: if_splits)

lemma set_delete_cases:
  "(k', v') \<in> set (AList.delete k al) \<Longrightarrow> (k', v') \<in> set al \<and> k' \<noteq> k"
  by (auto simp: AList.delete_eq)

lemma update_fresh: "k \<notin> fst ` set al \<Longrightarrow> AList.update k v al = al @ [(k, v)]"
  by (induction al) auto

lemma send_throws_sync: "send_throws s = Some e \<Longrightarrow> sync_rejection (Rejected e)"
  by (auto simp: send_throws_def sync_rejection_def split: if_splits)

lemma pending_inv_new: "pending_inv (SmartBulb_new cfg)"
  by (simp add: pending_inv_def SmartBulb_new_def)

lemma sendCommand_fields:
  "issued (snd (sendCommand c gid s)) = issued s @ [gid]"
  "timers (snd (sendCommand c gid s)) = insert (length (issued s)) (timers s)"
  "pendingCommands (snd (sendCommand c gid s))
     = AList.update gid (length (issued s)) (pendingCommands s)"
  "settled (snd (sendCommand c gid s))
     = settled s @ (case send_throws s of None \<Rightarrow> []
                    | Some e \<Rightarrow> [(length (issued s), Rejected e)])"
  "sent (snd (sendCommand c gid s))
     = sent s @ (case send_throws s of
                   None \<Rightarrow> [(commandWithId c gid, port (config s), ip (config s))]
                 | Some e \<Rightarrow> [])"
  "lastStatus (snd (sendCommand c gid s)) = lastStatus s"
  "config (snd (sendCommand c gid s)) = config s"
  "socket_closed (snd (sendCommand c gid s)) = socket_closed s"
  "fst (sendCommand c gid s) = length (issued s)"
  by (simp_all add: sendCommand_def Let_def settle_def split: option.splits)

lemma pending_inv_sendCommand:
  assumes "pending_inv s"
  shows "pending_inv (snd (sendCommand c gid s))"
proof -
  have new: "sync_rejection out"
    if "(length (issued s), out) \<in> set (settled (snd (sendCommand c gid s)))" for out
  proof -
    from assms have "length (issued s) \<notin> fst ` set (settled s)"
      by (auto simp: pending_inv_def)
    then have "(length (issued s), out) \<notin> set (settled s)" by force
    with that show ?thesis
      by (auto simp: sendCommand_fields send_throws_sync split: option.splits)
  qed
  have old: "sync_rejection out"
    if "(k, h) \<in> set (pendingCommands s)" "(h, out) \<in> set (settled (snd (sendCommand c gid s)))"
    for k h out
  proof -
    from assms that(1) have "h < length (issued s)"
      and "\<forall>out. (h, out) \<in> set (settled s) \<longrightarrow> sync_rejection out"
      by (auto simp: pending_inv_def)
    with that(2) show ?thesis
      by (auto simp: sendCommand_fields split: option.splits)
  qed
  from assms show ?thesis
    unfolding pending_inv_def
    apply (intro conjI)
       apply (simp add: sendCommand_fields distinct_update)
      apply (clarsimp simp only: sendCommand_fields)
      apply (drule set_update_cases)
      apply (erule disjE)
       apply (use new in \<open>auto simp: nth_append sendCommand_fields\<close>)[1]
      apply (use old in \<open>auto simp: nth_append sendCommand_fields\<close>)[1]
     apply (auto simp: sendCommand_fields split: option.splits)
    done
qed

lemma pending_inv_updateStatus: "pending_inv s \<Longrightarrow> pending_inv (updateStatus d s)"
  by (simp add: pending_inv_def updateStatus_def)

lemma pending_inv_unregister:
  assumes "pending_inv s" "h < length (issued s)" "issued s ! h = k"
  shows "pending_inv (pending_delete k (clearTimeout h s))"
    and "\<forall>(k', h') \<in> set (pendingCommands (pending_delete k (clearTimeout h s))). h' \<noteq> h"
  using assms unfolding pending_inv_def pending_delete_def clearTimeout_def
  by (auto simp: distinct_delete dest!: set_delete_cases)

lemma pending_inv_settle:
  assumes "pending_inv s" "h < length (issued s)" "\<forall>(k', h') \<in> set (pendingCommands s). h' \<noteq> h"
  shows "pending_inv (settle h out s)"
  using assms unfolding pending_inv_def settle_def
  by auto

lemma pending_inv_remove:
  assumes "pending_inv s" "h < length (issued s)" "issued s ! h = k"
  shows "pending_inv (settle h out (pending_delete k (clearTimeout h s)))"
proof -
  note u = pending_inv_unregister[OF assms]
  show ?thesis
    by (rule pending_inv_settle[OF u(1) _ u(2)])
       (simp add: pending_delete_def clearTimeout_def assms(2))
qed

lemma close_loop_fields:
  "settled (close_loop es s) =
     settled s @ map (\<lambda>(k, h). (h, Rejected (Error (JStr ''Connection closed'')))) es
   \<and> timers (close_loop es s) = timers s - snd ` set es
   \<and> issued (close_loop es s) = issued s
   \<and> pendingCommands (close_loop es s) = pendingCommands s
   \<and> lastStatus (close_loop es s) = lastStatus s
   \<and> sent (close_loop es s) = sent s
   \<and> config (close_loop es s) = config s
   \<and> socket_closed (close_loop es s) = socket_closed s"
  by (induction es s rule: close_loop.induct) (auto simp: settle_def clearTimeout_def)

lemma close_fields:
  "settled (snd (close s)) =
     settled s @ map (\<lambda>(k, h). (h, Rejected (Error (JStr ''Connection closed''))))
                     (pendingCommands s)"
  "timers (snd (close s)) = timers s - snd ` set (pendingCommands s)"
  "issued (snd (close s)) = issued s"
  "pendingCommands (snd (close s)) = []"
  "lastStatus (snd (close s)) = lastStatus s"
  "sent (snd (close s)) = sent s"
  "config (snd (close s)) = config s"
  "socket_closed (snd (close s)) = True"
  "fst (close s) = (if socket_closed s then Inl (SocketError ''ERR_SOCKET_DGRAM_NOT_RUNNING'')
                    else Inr ())"
  by (simp_all add: close_def Let_def close_loop_fields)

lemma pending_inv_close: "pending_inv s \<Longrightarrow> pending_inv (snd (close s))"
  unfolding pending_inv_def
  by (auto simp: close_fields)

lemma pending_inv_entry:
  assumes "pending_inv s" "map_of (pendingCommands s) k = Some h"
  shows "h < length (issued s)" "issued s ! h = k" "h \<in> timers s"
    "promise s h = None \<or> (\<exists>out. promise s h = Some out \<and> sync_rejection out)"
proof -
  from assms(2) have m: "(k, h) \<in> set (pendingCommands s)" by (rule map_of_SomeD)
  with assms(1) show "h < length (issued s)" "issued s ! h = k" "h \<in> timers s"
    by (auto simp: pending_inv_def)
  from m assms(1) have a: "\<forall>out. (h, out) \<in> set (settled s) \<longrightarrow> sync_rejection out"
    by (auto simp: pending_inv_def)
  show "promise s h = None \<or> (\<exists>out. promise s h = Some out \<and> sync_rejection out)"
  proof (cases "promise s h")
    case None
    then show ?thesis by simp
  next
    case (Some out)
    then have "(h, out) \<in> set (settled s)"
      unfolding promise_def by (rule map_of_SomeD)
    with a Some show ?thesis by simp
  qed
qed

lemma status_push_fields [simp]:
  "settled (status_push r s) = settled s"
  "pendingCommands (status_push r s) = pendingCommands s"
  "timers (status_push r s) = timers s"
  "issued (status_push r s) = issued s"
  "sent (status_push r s) = sent s"
  "config (status_push r s) = config s"
  "socket_closed (status_push r s) = socket_closed s"
  by (simp_all add: status_push_def updateStatus_def split: option.splits)

lemma pending_inv_status_push: "pending_inv s \<Longrightarrow> pending_inv (status_push r s)"
  by (simp add: pending_inv_def)

lemma match_pending_match:
  assumes "map_of (pendingCommands s) k = Some h" "k \<noteq> []" "get_prop r ''id'' = Some (JStr k)"
  shows "match_pending r s =
           (if truthy (get_prop r ''success'')
            then (Inr (), settle h (Resolved r) (pending_delete k (clearTimeout h s)))
            else if stringifiable (error_or_default r)
            then (Inr (), settle h (Rejected (Error (error_or_default r)))
                           (pending_delete k (clearTimeout h s)))
            else (Inl TypeError, pending_delete k (clearTimeout h s)))"
  using assms by (simp add: match_pending_def Let_def)

lemma match_pending_nomatch:
  assumes "\<not> names_pending r s"
  shows "match_pending r s = (Inr (), s)"
  using assms
  by (auto simp: match_pending_def names_pending_def split: option.splits jsval.splits)

lemma names_pending_cases:
  "names_pending r s \<Longrightarrow>
     \<exists>k h. get_prop r ''id'' = Some (JStr k) \<and> k \<noteq> [] \<and> map_of (pendingCommands s) k = Some h"
  by (auto simp: names_pending_def split: option.splits jsval.splits)

lemma pending_inv_match_pending: "pending_inv s \<Longrightarrow> pending_inv (snd (match_pending r s))"
proof (cases "names_pending r s")
  case False
  then show "pending_inv s \<Longrightarrow> ?thesis" by (simp add: match_pending_nomatch)
next
  case True
  then obtain k h where r: "get_prop r ''id'' = Some (JStr k)" "k \<noteq> []"
    "map_of (pendingCommands s) k = Some h"
    using names_pending_cases by blast
  assume i: "pending_inv s"
  note e = pending_inv_entry(1,2)[OF i r(3)]
  show ?thesis
    by (simp add: match_pending_match[OF r(3,2,1)] pending_inv_remove[OF i e]
        pending_inv_unregister(1)[OF i e])
qed

lemma pending_inv_handleResponse: "pending_inv s \<Longrightarrow> pending_inv (snd (handleResponse r s))"
  using pending_inv_match_pending[of s r]
  by (cases "match_pending r s")
     (auto simp: handleResponse_def pending_inv_status_push split: sum.splits)

lemma pending_inv_step: "pending_inv s \<Longrightarrow> pending_inv (step e s)"
proof (cases e)
  case (Send c gid)
  then show "pending_inv s \<Longrightarrow> ?thesis" by (simp add: pending_inv_sendCommand)
next
  case (SendFailed h e')
  then show "pending_inv s \<Longrightarrow> ?thesis" by (simp add: send_failed_def pending_inv_remove)
next
  case (TimerFires h)
  then show "pending_inv s \<Longrightarrow> ?thesis" by (simp add: timer_fires_def pending_inv_remove)
next
  case (Message p)
  then show "pending_inv s \<Longrightarrow> ?thesis"
    by (auto simp: on_message_def pending_inv_handleResponse split: option.splits jsval.splits)
next
  case (GetStatusResumes h)
  then show "pending_inv s \<Longrightarrow> ?thesis"
    by (auto simp: getStatus_resume_def getStatus_try_def await_def pending_inv_updateStatus
        Let_def split: option.splits outcome.splits sum.splits if_splits)
next
  case Close
  then show "pending_inv s \<Longrightarrow> ?thesis" by (simp add: pending_inv_close)
qed

lemma pending_inv_run: "pending_inv (run evs (SmartBulb_new cfg))"
proof -
  have "pending_inv s \<Longrightarrow> pending_inv (fold step evs s)" for s
    by (induction evs arbitrary: s) (auto simp: pending_inv_step)
  then show ?thesis unfolding run_def using pending_inv_new by blast
qed

subsection \<open>What a datagram, a timer and a failed send do to the table\<close>

lemma on_message_cases:
  "on_message (Some v) s = (if v = JNull then s else snd (handleResponse v s))"
  by (cases v) (simp_all add: on_message_def)

lemma on_message_object:
  "get_prop r k = Some v \<Longrightarrow> on_message (Some r) s = snd (handleResponse r s)"
  by (cases r) (auto simp: on_message_def)

lemma handleResponse_match:
  assumes "map_of (pendingCommands s) k = Some h" "k \<noteq> []" "get_prop r ''id'' = Some (JStr k)"
  shows "settled (snd (handleResponse r s)) =
           settled s @ (if truthy (get_prop r ''success'') then [(h, Resolved r)]
                        else if stringifiable (error_or_default r)
                        then [(h, Rejected (Error (error_or_default r)))]
                        else [])"
    and "pendingCommands (snd (handleResponse r s)) = AList.delete k (pendingCommands s)"
    and "timers (snd (handleResponse r s)) = timers s - {h}"
    and "issued (snd (handleResponse r s)) = issued s"
    and "sent (snd (handleResponse r s)) = sent s"
  by (simp_all add: handleResponse_def match_pending_match[OF assms] settle_def
      pending_delete_def clearTimeout_def)

lemma handleResponse_nomatch:
  assumes "\<not> names_pending r s"
  shows "settled (snd (handleResponse r s)) = settled s"
    and "pendingCommands (snd (handleResponse r s)) = pendingCommands s"
    and "timers (snd (handleResponse r s)) = timers s"
    and "issued (snd (handleResponse r s)) = issued s"
    and "sent (snd (handleResponse r s)) = sent s"
    and "fst (handleResponse r s) = Inr ()"
  by (simp_all add: handleResponse_def match_pending_nomatch[OF assms])

lemma map_of_snoc_fresh:
  "map_of xs h = None \<Longrightarrow> map_of (xs @ [(h, out)]) h = Some out"
  by (simp add: map_add_def)

lemma filter_fresh:
  "h \<notin> fst ` set xs \<Longrightarrow> filter (\<lambda>(h', out). h' = h) xs = []"
  by (induction xs) auto

lemma timer_fires_entry:
  assumes "pending_inv s" "map_of (pendingCommands s) k = Some h"
  shows "settled (timer_fires h s) = settled s @ [(h, Rejected (Error (JStr ''Command timeout'')))]"
    and "pendingCommands (timer_fires h s) = AList.delete k (pendingCommands s)"
    and "timers (timer_fires h s) = timers s - {h}"
  using pending_inv_entry(1,2,3)[OF assms]
  by (auto simp: timer_fires_def settle_def pending_delete_def clearTimeout_def)

lemma send_failed_entry:
  assumes "pending_inv s" "map_of (pendingCommands s) k = Some h"
  shows "settled (send_failed h e s) = settled s @ [(h, Rejected (SocketError e))]"
    and "pendingCommands (send_failed h e s) = AList.delete k (pendingCommands s)"
    and "timers (send_failed h e s) = timers s - {h}"
  using pending_inv_entry(1,2,3)[OF assms]
  by (auto simp: send_failed_def settle_def pending_delete_def clearTimeout_def)

lemma not_names_pending_deleted:
  "get_prop r ''id'' = Some (JStr k) \<Longrightarrow> pendingCommands s' = AList.delete k al
     \<Longrightarrow> \<not> names_pending r s'"
  by (simp add: names_pending_def delete_conv')

lemma map_of_closed:
  "(k, h) \<in> set es \<Longrightarrow>
   map_of (map (\<lambda>(k, h). (h, Rejected (Error (JStr ''Connection closed'')))) es) h
     = Some (Rejected (Error (JStr ''Connection closed'')))"
  by (induction es) auto

text \<open>The definitions that the evaluation of a concrete run unfolds.\<close>

lemmas eval_defs = run_def sendCommand_def SmartBulb_new_def Let_def on_message_def
  handleResponse_def match_pending_def status_push_def settle_def pending_delete_def
  clearTimeout_def timer_fires_def promise_def ok_reply_def error_or_default_def
  updateStatus_def send_throws_def valid_port_def bulb_config_def bad_port_config_def
  close_def

subsection \<open>Closing the proxy\<close>

text \<open>
  Claim C7, amended. A request that is registered in the in-flight table, as the entry
  \<open>(k, h)\<close>, and whose promise is unsettled is rejected by \<open>close\<close> with the error
  \<^verbatim>\<open>Connection closed\<close> inside the call; its timer is cleared and the table is left
  empty. The call of \<open>close\<close> returns normally when the socket was still open.
\<close>

theorem C7_close_fails_pending:
  assumes "(k, h) \<in> set (pendingCommands s)" and "promise s h = None"
  shows "promise (snd (close s)) h = Some (Rejected (Error (JStr ''Connection closed'')))
       \<and> h \<notin> timers (snd (close s))
       \<and> pendingCommands (snd (close s)) = []
       \<and> (\<not> socket_closed s \<longrightarrow> fst (close s) = Inr ())"
proof -
  from assms(2) have none: "map_of (settled s) h = None" by (simp add: promise_def)
  have rej: "promise (snd (close s)) h = Some (Rejected (Error (JStr ''Connection closed'')))"
    using none map_of_closed[OF assms(1)] by (simp add: promise_def close_fields map_add_def)
  have tm: "h \<notin> timers (snd (close s))"
    using assms(1) by (force simp: close_fields)
  show ?thesis using rej tm by (simp add: close_fields)
qed

text \<open>Two commands in flight: both are rejected by \<open>close\<close>, which returns.\<close>

theorem C7_close_fails_pending_witness:
  "(''k3'', 0) \<in> set (pendingCommands (run [Send ping_command ''k3'', Send status_command ''q7'']
                                        (SmartBulb_new bulb_config)))
   \<and> (''q7'', 1) \<in> set (pendingCommands (run [Send ping_command ''k3'', Send status_command ''q7'']
                                        (SmartBulb_new bulb_config)))
   \<and> promise (run [Send ping_command ''k3'', Send status_command ''q7'']
                 (SmartBulb_new bulb_config)) 0 = None
   \<and> promise (run [Send ping_command ''k3'', Send status_command ''q7'']
                 (SmartBulb_new bulb_config)) 1 = None
   \<and> promise (snd (close (run [Send ping_command ''k3'', Send status_command ''q7'']
                        (SmartBulb_new bulb_config)))) 0
       = Some (Rejected (Error (JStr ''Connection closed'')))
   \<and> promise (snd (close (run [Send ping_command ''k3'', Send status_command ''q7'']
                        (SmartBulb_new bulb_config)))) 1
       = Some (Rejected (Error (JStr ''Connection closed'')))
   \<and> pendingCommands (snd (close (run [Send ping_command ''k3'', Send status_command ''q7'']
                        (SmartBulb_new bulb_config)))) = []
   \<and> fst (close (run [Send ping_command ''k3'', Send status_command ''q7'']
                        (SmartBulb_new bulb_config))) = Inr ()"
proof -
  have m0: "(''k3'', 0) \<in> set (pendingCommands (run [Send ping_command ''k3'', Send status_command ''q7'']
                                        (SmartBulb_new bulb_config)))"
    by (simp add: eval_defs)
  have m1: "(''q7'', 1) \<in> set (pendingCommands (run [Send ping_command ''k3'', Send status_command ''q7'']
                                        (SmartBulb_new bulb_config)))"
    by (simp add: eval_defs)
  have p0: "promise (run [Send ping_command ''k3'', Send status_command ''q7'']
                 (SmartBulb_new bulb_config)) 0 = None"
    by (simp add: eval_defs)
  have p1: "promise (run [Send ping_command ''k3'', Send status_command ''q7'']
                 (SmartBulb_new bulb_config)) 1 = None"
    by (simp add: eval_defs)
  have c: "\<not> socket_closed (run [Send ping_command ''k3'', Send status_command ''q7'']
                 (SmartBulb_new bulb_config))"
    by (simp add: eval_defs)
  from C7_close_fails_pending[OF m0 p0] C7_close_fails_pending[OF m1 p1] m0 m1 p0 p1 c
  show ?thesis by simp
qed

text \<open>
  Not every outstanding request has an entry. When a second command drew the
  identifier of a command in flight, the first call lost its entry to the second:
  \<open>close\<close> rejects the second call only, the first stays unsettled and its timer
  stays armed.
\<close>

theorem C7_counterexample:
  "promise (run [Send ping_command ''k3'', Send status_command ''k3'']
              (SmartBulb_new bulb_config)) 0 = None
   \<and> promise (run [Send ping_command ''k3'', Send status_command ''k3'']
              (SmartBulb_new bulb_config)) 1 = None
   \<and> promise (snd (close (run [Send ping_command ''k3'', Send status_command ''k3'']
              (SmartBulb_new bulb_config)))) 0 = None
   \<and> promise (snd (close (run [Send ping_command ''k3'', Send status_command ''k3'']
              (SmartBulb_new bulb_config)))) 1
       = Some (Rejected (Error (JStr ''Connection closed'')))
   \<and> 0 \<in> timers (snd (close (run [Send ping_command ''k3'', Send status_command ''k3'']
              (SmartBulb_new bulb_config))))"
  by (simp add: eval_defs)

subsection \<open>Resolution of a pending command\<close>

text \<open>
  Claim C1, amended. Take a state that a run reaches and a call \<open>h\<close> that is registered
  in the in-flight table under a non-empty identifier \<open>k\<close> and is unsettled. A
  datagram \<open>r\<close> that carries \<open>k\<close> resolves the call with \<open>r\<close> when its \<^verbatim>\<open>success\<close> is
  truthy; when it is not, and the \<^verbatim>\<open>error\<close> field of \<open>r\<close> (or the default message, for a
  falsy or missing field) can be converted to a string, the datagram rejects the call
  with that value. The timer of the call rejects it with \<^verbatim>\<open>Command timeout\<close>. The
  datagram and the timer each remove the entry; in the cases named exactly one
  resolve or reject call has been made for \<open>h\<close>; a further datagram \<open>r'\<close> with the same
  identifier makes no such call; and after the datagram the timer of the call does
  nothing.
\<close>

theorem C1_resolution:
  assumes "s = run evs (SmartBulb_new cfg)"
    and "map_of (pendingCommands s) k = Some h" and "k \<noteq> []"
    and "promise s h = None"
    and "get_prop r ''id'' = Some (JStr k)" and "get_prop r' ''id'' = Some (JStr k)"
  shows "(truthy (get_prop r ''success'')
         \<longrightarrow> promise (on_message (Some r) s) h = Some (Resolved r))
    \<and> (\<not> truthy (get_prop r ''success'') \<and> stringifiable (error_or_default r)
         \<longrightarrow> promise (on_message (Some r) s) h = Some (Rejected (Error (error_or_default r))))
    \<and> promise (timer_fires h s) h = Some (Rejected (Error (JStr ''Command timeout'')))
    \<and> map_of (pendingCommands (on_message (Some r) s)) k = None
    \<and> map_of (pendingCommands (timer_fires h s)) k = None
    \<and> (truthy (get_prop r ''success'') \<or> stringifiable (error_or_default r)
         \<longrightarrow> length (filter (\<lambda>(h', out). h' = h) (settled (on_message (Some r) s))) = 1)
    \<and> length (filter (\<lambda>(h', out). h' = h) (settled (timer_fires h s))) = 1
    \<and> settled (on_message (Some r') (on_message (Some r) s)) = settled (on_message (Some r) s)
    \<and> settled (on_message (Some r') (timer_fires h s)) = settled (timer_fires h s)
    \<and> timer_fires h (on_message (Some r) s) = on_message (Some r) s"
proof -
  have i: "pending_inv s" unfolding assms(1) by (rule pending_inv_run)
  have none: "map_of (settled s) h = None" using assms(4) by (simp add: promise_def)
  then have fresh: "h \<notin> fst ` set (settled s)" by (simp add: map_of_eq_None_iff)
  have om: "on_message (Some r) s = snd (handleResponse r s)"
    using assms(5) by (rule on_message_object)
  note m = handleResponse_match[OF assms(2,3,5)]
  note t = timer_fires_entry[OF i assms(2)]
  have om': "on_message (Some r') s' = snd (handleResponse r' s')" for s'
    using assms(6) by (rule on_message_object)
  have b: "truthy (get_prop r ''success'')
         \<longrightarrow> promise (on_message (Some r) s) h = Some (Resolved r)"
    using none by (simp add: om promise_def m(1) map_add_def)
  have c: "\<not> truthy (get_prop r ''success'') \<and> stringifiable (error_or_default r)
         \<longrightarrow> promise (on_message (Some r) s) h = Some (Rejected (Error (error_or_default r)))"
    using none by (simp add: om promise_def m(1) map_add_def)
  have d: "promise (timer_fires h s) h = Some (Rejected (Error (JStr ''Command timeout'')))"
    using none by (simp add: promise_def t(1) map_add_def)
  have f: "map_of (pendingCommands (on_message (Some r) s)) k = None"
    by (simp add: om m(2) delete_conv')
  have g: "map_of (pendingCommands (timer_fires h s)) k = None"
    by (simp add: t(2) delete_conv')
  have h1: "truthy (get_prop r ''success'') \<or> stringifiable (error_or_default r)
         \<longrightarrow> length (filter (\<lambda>(h', out). h' = h) (settled (on_message (Some r) s))) = 1"
    by (auto simp: om m(1) filter_fresh[OF fresh])
  have h2: "length (filter (\<lambda>(h', out). h' = h) (settled (timer_fires h s))) = 1"
    by (simp add: t(1) filter_fresh[OF fresh])
  have j1: "settled (on_message (Some r') (on_message (Some r) s)) = settled (on_message (Some r) s)"
    unfolding om' by (rule handleResponse_nomatch(1))
       (rule not_names_pending_deleted[OF assms(6)], simp add: om m(2))
  have j2: "settled (on_message (Some r') (timer_fires h s)) = settled (timer_fires h s)"
    unfolding om' by (rule handleResponse_nomatch(1))
       (rule not_names_pending_deleted[OF assms(6)], rule t(2))
  have l: "timer_fires h (on_message (Some r) s) = on_message (Some r) s"
    by (simp add: timer_fires_def om m(3))
  show ?thesis using b c d f g h1 h2 j1 j2 l by blast
qed

text \<open>A status query with identifier \<^verbatim>\<open>k3\<close>, its reply, a reply that reports a failure, and
  the first reply delivered twice.\<close>

theorem C1_resolution_witness:
  "map_of (pendingCommands (run [Send status_command ''k3''] (SmartBulb_new bulb_config))) ''k3''
     = Some 0
   \<and> promise (run [Send status_command ''k3''] (SmartBulb_new bulb_config)) 0 = None
   \<and> get_prop (ok_reply ''k3'') ''id'' = Some (JStr ''k3'')
   \<and> get_prop (error_reply ''k3'') ''id'' = Some (JStr ''k3'')
   \<and> stringifiable (error_or_default (error_reply ''k3''))
   \<and> promise (on_message (Some (ok_reply ''k3''))
                (run [Send status_command ''k3''] (SmartBulb_new bulb_config))) 0
       = Some (Resolved (ok_reply ''k3''))
   \<and> promise (on_message (Some (error_reply ''k3''))
                (run [Send status_command ''k3''] (SmartBulb_new bulb_config))) 0
       = Some (Rejected (Error (JStr ''Unknown command: x'')))
   \<and> settled (on_message (Some (ok_reply ''k3'')) (on_message (Some (ok_reply ''k3''))
                (run [Send status_command ''k3''] (SmartBulb_new bulb_config))))
       = [(0, Resolved (ok_reply ''k3''))]"
proof -
  have p: "map_of (pendingCommands (run [Send status_command ''k3''] (SmartBulb_new bulb_config)))
             ''k3'' = Some 0"
    by (simp add: eval_defs)
  have u: "promise (run [Send status_command ''k3''] (SmartBulb_new bulb_config)) 0 = None"
    by (simp add: eval_defs)
  have n: "''k3'' \<noteq> []" by simp
  have g: "get_prop (ok_reply ''k3'') ''id'' = Some (JStr ''k3'')"
    by (simp add: ok_reply_def)
  have g': "get_prop (error_reply ''k3'') ''id'' = Some (JStr ''k3'')"
    by (simp add: error_reply_def)
  have t: "truthy (get_prop (ok_reply ''k3'') ''success'')"
    by (simp add: ok_reply_def)
  have t': "\<not> truthy (get_prop (error_reply ''k3'') ''success'')"
    by (simp add: error_reply_def)
  have e: "error_or_default (error_reply ''k3'') = JStr ''Unknown command: x''"
    by (simp add: error_reply_def error_or_default_def)
  have st: "settled (on_message (Some (ok_reply ''k3''))
                (run [Send status_command ''k3''] (SmartBulb_new bulb_config)))
              = [(0, Resolved (ok_reply ''k3''))]"
    by (simp add: eval_defs)
  from C1_resolution[OF refl p n u g g] C1_resolution[OF refl p n u g' g] p u g g' t t' e st
  show ?thesis by simp
qed

text \<open>
  The claim as stated, for every command issued, fails in four runs. When the
  generator returns the empty string (\<^verbatim>\<open>Math.random()\<close> gave 0), the reply that echoes
  the identifier is not matched: the call stays unsettled and its entry stays in the
  table. When two commands in flight drew the same identifier, the reply resolves the
  second call and the first stays unsettled. When the reply reports a failure with an
  \<^verbatim>\<open>error\<close> that cannot be converted to a string, the entry is removed and the timer
  cleared, and the call is neither resolved nor rejected. When the socket refuses the
  port, the call is rejected at once with the socket's error while its entry stays in
  the table, and the reply that arrives for it changes nothing.
\<close>

theorem C1_counterexample:
  "promise (run [Send ping_command [], Message (Some (ok_reply []))] (SmartBulb_new bulb_config)) 0
     = None
   \<and> pendingCommands (run [Send ping_command [], Message (Some (ok_reply []))]
                        (SmartBulb_new bulb_config)) = [([], 0)]
   \<and> promise (run [Send ping_command ''k3'', Send status_command ''k3'',
                    Message (Some (ok_reply ''k3''))] (SmartBulb_new bulb_config)) 1
       = Some (Resolved (ok_reply ''k3''))
   \<and> promise (run [Send ping_command ''k3'', Send status_command ''k3'',
                    Message (Some (ok_reply ''k3''))] (SmartBulb_new bulb_config)) 0
       = None
   \<and> promise (run [Send ping_command ''k3'', Message (Some (odd_error_reply ''k3''))]
                 (SmartBulb_new bulb_config)) 0 = None
   \<and> pendingCommands (run [Send ping_command ''k3'', Message (Some (odd_error_reply ''k3''))]
                 (SmartBulb_new bulb_config)) = []
   \<and> timers (run [Send ping_command ''k3'', Message (Some (odd_error_reply ''k3''))]
                 (SmartBulb_new bulb_config)) = {}
   \<and> pendingCommands (run [Send ping_command ''k3''] (SmartBulb_new bad_port_config))
       = [(''k3'', 0)]
   \<and> promise (run [Send ping_command ''k3'', Message (Some (ok_reply ''k3''))]
                 (SmartBulb_new bad_port_config)) 0
       = Some (Rejected (SocketError ''ERR_SOCKET_BAD_PORT''))"
  by (simp add: eval_defs odd_error_reply_def)

subsection \<open>Identifiers and the table\<close>

text \<open>
  As long as the port is one that the socket accepts and the proxy has not been
  closed, no send throws, and every entry of the table is unsettled.
\<close>

lemma send_throws_same:
  "config s' = config s \<Longrightarrow> socket_closed s' = socket_closed s
     \<Longrightarrow> send_throws s' = send_throws s"
  by (simp add: send_throws_def)

lemma getStatus_resume_fields:
  "settled (snd (getStatus_resume out s)) = settled s"
  "pendingCommands (snd (getStatus_resume out s)) = pendingCommands s"
  "timers (snd (getStatus_resume out s)) = timers s"
  "issued (snd (getStatus_resume out s)) = issued s"
  "sent (snd (getStatus_resume out s)) = sent s"
  "config (snd (getStatus_resume out s)) = config s"
  "socket_closed (snd (getStatus_resume out s)) = socket_closed s"
proof -
  have "snd (getStatus_resume out s) = s
        \<or> (\<exists>d. snd (getStatus_resume out s) = updateStatus d s)"
    by (cases out)
       (auto simp: getStatus_resume_def getStatus_try_def await_def Let_def
          split: option.splits)
  then show "settled (snd (getStatus_resume out s)) = settled s"
    "pendingCommands (snd (getStatus_resume out s)) = pendingCommands s"
    "timers (snd (getStatus_resume out s)) = timers s"
    "issued (snd (getStatus_resume out s)) = issued s"
    "sent (snd (getStatus_resume out s)) = sent s"
    "config (snd (getStatus_resume out s)) = config s"
    "socket_closed (snd (getStatus_resume out s)) = socket_closed s"
    by (auto simp: updateStatus_def)
qed

lemma unregister_fields:
  "settled (settle h out (pending_delete k (clearTimeout h s))) = settled s @ [(h, out)]"
  "pendingCommands (settle h out (pending_delete k (clearTimeout h s)))
     = AList.delete k (pendingCommands s)"
  "config (settle h out (pending_delete k (clearTimeout h s))) = config s"
  "socket_closed (settle h out (pending_delete k (clearTimeout h s))) = socket_closed s"
  by (simp_all add: settle_def pending_delete_def clearTimeout_def)

lemma open_unregister:
  assumes "pending_inv s" "\<forall>(k, h) \<in> set (pendingCommands s). h \<notin> fst ` set (settled s)"
    "h < length (issued s)" "issued s ! h = k"
  shows "\<forall>(k', h') \<in> set (AList.delete k (pendingCommands s)).
           h' \<notin> fst ` set (settled s) \<and> h' \<noteq> h"
proof -
  have "\<forall>(k', h') \<in> set (AList.delete k (pendingCommands s)). h' \<notin> fst ` set (settled s)"
    using assms(2) by (auto dest!: set_delete_cases)
  moreover have "\<forall>(k', h') \<in> set (AList.delete k (pendingCommands s)). h' \<noteq> h"
    using pending_inv_unregister(2)[OF assms(1,3,4)]
    by (simp add: pending_delete_def clearTimeout_def)
  ultimately show ?thesis by blast
qed

lemma open_remove:
  assumes "pending_inv s" "send_throws s = None"
    "\<forall>(k, h) \<in> set (pendingCommands s). h \<notin> fst ` set (settled s)"
    "h < length (issued s)"
  shows "send_throws (settle h out (pending_delete (issued s ! h) (clearTimeout h s))) = None
       \<and> (\<forall>(k', h') \<in> set (pendingCommands
                 (settle h out (pending_delete (issued s ! h) (clearTimeout h s)))).
             h' \<notin> fst ` set (settled
                 (settle h out (pending_delete (issued s ! h) (clearTimeout h s)))))"
proof -
  note u = open_unregister[OF assms(1,3,4) refl]
  have "h' \<notin> fst ` set (settled s @ [(h, out)])"
    if "(k', h') \<in> set (AList.delete (issued s ! h) (pendingCommands s))" for k' h'
  proof -
    from bspec[OF u that] have "h' \<notin> fst ` set (settled s)" "h' \<noteq> h" by simp_all
    then show ?thesis by simp
  qed
  then have e: "\<forall>(k', h') \<in> set (AList.delete (issued s ! h) (pendingCommands s)).
          h' \<notin> fst ` set (settled s @ [(h, out)])"
    by blast
  have "send_throws (settle h out (pending_delete (issued s ! h) (clearTimeout h s)))
          = send_throws s"
    by (rule send_throws_same) (simp_all add: unregister_fields)
  with assms(2)
  have t: "send_throws (settle h out (pending_delete (issued s ! h) (clearTimeout h s))) = None"
    by simp
  from e t show ?thesis by (simp only: unregister_fields simp_thms)
qed

lemma open_step:
  assumes "pending_inv s" "send_throws s = None"
    "\<forall>(k, h) \<in> set (pendingCommands s). h \<notin> fst ` set (settled s)" "e \<noteq> Close"
  shows "send_throws (step e s) = None
       \<and> (\<forall>(k, h) \<in> set (pendingCommands (step e s)). h \<notin> fst ` set (settled (step e s)))"
proof (cases e)
  case (Send c gid)
  from assms(1) have n: "length (issued s) \<notin> fst ` set (settled s)"
    by (auto simp: pending_inv_def)
  have "send_throws (snd (sendCommand c gid s)) = send_throws s"
    by (rule send_throws_same) (simp_all add: sendCommand_fields)
  with assms(2) have a: "send_throws (snd (sendCommand c gid s)) = None" by simp
  have b: "settled (snd (sendCommand c gid s)) = settled s"
    using assms(2) by (simp add: sendCommand_fields)
  have "h' \<notin> fst ` set (settled s)"
    if "(k', h') \<in> set (AList.update gid (length (issued s)) (pendingCommands s))" for k' h'
  proof -
    from set_update_cases[OF that]
    consider "h' = length (issued s)" | "(k', h') \<in> set (pendingCommands s)" by auto
    then show ?thesis
    proof cases
      case 1
      with n show ?thesis by simp
    next
      case 2
      from bspec[OF assms(3) 2] show ?thesis by simp
    qed
  qed
  then have "\<forall>(k', h') \<in> set (AList.update gid (length (issued s)) (pendingCommands s)).
      h' \<notin> fst ` set (settled s)"
    by blast
  then have "\<forall>(k', h') \<in> set (pendingCommands (snd (sendCommand c gid s))).
      h' \<notin> fst ` set (settled (snd (sendCommand c gid s)))"
    by (simp only: b sendCommand_fields(3))
  with a Send show ?thesis by simp
next
  case (SendFailed h e')
  show ?thesis
  proof (cases "h < length (issued s)")
    case True
    from open_remove[OF assms(1,2,3) True] SendFailed True show ?thesis
      by (simp add: send_failed_def)
  next
    case False
    with assms SendFailed show ?thesis by (simp add: send_failed_def)
  qed
next
  case (TimerFires h)
  show ?thesis
  proof (cases "h \<in> timers s \<and> h < length (issued s)")
    case True
    then have l: "h < length (issued s)" by simp
    from open_remove[OF assms(1,2,3) l] TimerFires True show ?thesis
      by (simp add: timer_fires_def)
  next
    case False
    have "timer_fires h s = s"
      unfolding timer_fires_def by (rule if_not_P) (rule False)
    with assms TimerFires show ?thesis by simp
  qed
next
  case (Message p)
  have hr: "send_throws (snd (handleResponse r s)) = None
       \<and> (\<forall>(k, h) \<in> set (pendingCommands (snd (handleResponse r s))).
             h \<notin> fst ` set (settled (snd (handleResponse r s))))" for r
  proof (cases "names_pending r s")
    case False
    have "send_throws (snd (handleResponse r s)) = send_throws s"
      by (rule send_throws_same)
         (simp_all add: handleResponse_def match_pending_nomatch[OF False])
    with assms(2,3) show ?thesis
      by (simp add: handleResponse_nomatch[OF False])
  next
    case True
    then obtain k h where r: "get_prop r ''id'' = Some (JStr k)" "k \<noteq> []"
      "map_of (pendingCommands s) k = Some h"
      using names_pending_cases by blast
    note en = pending_inv_entry(1,2)[OF assms(1) r(3)]
    note m = handleResponse_match[OF r(3,2,1)]
    have "send_throws (snd (handleResponse r s)) = send_throws s"
      by (rule send_throws_same)
         (simp_all add: handleResponse_def match_pending_match[OF r(3,2,1)]
            settle_def pending_delete_def clearTimeout_def)
    with assms(2) have st: "send_throws (snd (handleResponse r s)) = None" by simp
    note u = open_unregister[OF assms(1,3) en]
    have "h' \<notin> fst ` set (settled (snd (handleResponse r s)))"
      if "(k', h') \<in> set (AList.delete k (pendingCommands s))" for k' h'
    proof -
      from bspec[OF u that] have "h' \<notin> fst ` set (settled s)" "h' \<noteq> h" by simp_all
      then show ?thesis unfolding m(1) by auto
    qed
    then have "\<forall>(k', h') \<in> set (AList.delete k (pendingCommands s)).
            h' \<notin> fst ` set (settled (snd (handleResponse r s)))"
      by blast
    with st show ?thesis by (simp only: m(2) simp_thms)
  qed
  show ?thesis
  proof (cases p)
    case None
    with Message assms(2,3) show ?thesis by (simp add: on_message_def)
  next
    case (Some v)
    with Message assms(2,3) hr[of v] show ?thesis
      by (simp add: on_message_cases)
  qed
next
  case (GetStatusResumes h)
  have "send_throws (snd (getStatus_resume out s)) = send_throws s" for out
    by (rule send_throws_same) (simp_all add: getStatus_resume_fields)
  with GetStatusResumes assms(2,3) show ?thesis
    by (cases "promise s h") (simp_all add: getStatus_resume_fields)
next
  case Close
  with assms(4) show ?thesis by simp
qed

lemma open_run:
  assumes "valid_port (port cfg)" "Close \<notin> set evs"
  shows "send_throws (run evs (SmartBulb_new cfg)) = None
       \<and> (\<forall>(k, h) \<in> set (pendingCommands (run evs (SmartBulb_new cfg))).
             h \<notin> fst ` set (settled (run evs (SmartBulb_new cfg))))"
proof -
  have "pending_inv s \<Longrightarrow> send_throws s = None
        \<Longrightarrow> \<forall>(k, h) \<in> set (pendingCommands s). h \<notin> fst ` set (settled s)
        \<Longrightarrow> Close \<notin> set evs
        \<Longrightarrow> send_throws (fold step evs s) = None
            \<and> (\<forall>(k, h) \<in> set (pendingCommands (fold step evs s)).
                  h \<notin> fst ` set (settled (fold step evs s)))" for s
  proof (induction evs arbitrary: s)
    case Nil
    then show ?case by simp
  next
    case (Cons e evs)
    from Cons.prems(4) have ne: "e \<noteq> Close" and rest: "Close \<notin> set evs" by auto
    note st = open_step[OF Cons.prems(1,2,3) ne]
    show ?case
      using Cons.IH[OF pending_inv_step[OF Cons.prems(1)] conjunct1[OF st] conjunct2[OF st] rest]
      by simp
  qed
  moreover have "send_throws (SmartBulb_new cfg) = None"
    using assms(1) by (simp add: send_throws_def SmartBulb_new_def)
  moreover have "\<forall>(k, h) \<in> set (pendingCommands (SmartBulb_new cfg)).
      h \<notin> fst ` set (settled (SmartBulb_new cfg))"
    by (simp add: SmartBulb_new_def)
  ultimately show ?thesis
    unfolding run_def using pending_inv_new assms(2) by blast
qed

text \<open>
  Claim C2, amended. In every state that a run reaches, an entry \<open>(k, h)\<close> of the
  in-flight table belongs to a call \<open>h\<close> of \<open>sendCommand\<close> on this proxy that drew the
  identifier \<open>k\<close>, and the promise of that call is unsettled or was rejected by the
  socket refusing the send (bad port, or socket not running); it is unsettled when
  the configured port is valid and the proxy has not been closed. \<open>sendCommand\<close>
  attaches the identifier it drew to the outgoing command and registers the call
  under it without looking at the table; when the identifier is not a key of the
  table, the registration adds one entry and leaves every other entry as it was. When
  the socket takes the datagram, the datagram is sent and the new call is unsettled;
  when the socket refuses it, nothing is sent and the new call is rejected with the
  socket's error.
\<close>

theorem C2_table_invariant:
  assumes "s = run evs (SmartBulb_new cfg)"
  shows "((k, h) \<in> set (pendingCommands s) \<longrightarrow>
            h < length (issued s) \<and> issued s ! h = k
            \<and> (promise s h = None
               \<or> promise s h = Some (Rejected (SocketError ''ERR_SOCKET_BAD_PORT''))
               \<or> promise s h = Some (Rejected (SocketError ''ERR_SOCKET_DGRAM_NOT_RUNNING''))))
    \<and> (valid_port (port cfg) \<and> Close \<notin> set evs \<and> (k, h) \<in> set (pendingCommands s)
         \<longrightarrow> promise s h = None)
    \<and> get_prop (commandWithId c gid) ''id'' = Some (JStr gid)
    \<and> issued (snd (sendCommand c gid s)) = issued s @ [gid]
    \<and> map_of (pendingCommands (snd (sendCommand c gid s))) gid = Some (length (issued s))
    \<and> (gid \<notin> fst ` set (pendingCommands s)
         \<longrightarrow> pendingCommands (snd (sendCommand c gid s))
               = pendingCommands s @ [(gid, length (issued s))])
    \<and> (send_throws s = None
         \<longrightarrow> sent (snd (sendCommand c gid s))
               = sent s @ [(commandWithId c gid, port (config s), ip (config s))]
             \<and> promise (snd (sendCommand c gid s)) (length (issued s)) = None)
    \<and> (send_throws s = Some e
         \<longrightarrow> sent (snd (sendCommand c gid s)) = sent s
             \<and> promise (snd (sendCommand c gid s)) (length (issued s)) = Some (Rejected e))"
proof -
  have i: "pending_inv s" unfolding assms by (rule pending_inv_run)
  have a: "(k, h) \<in> set (pendingCommands s) \<longrightarrow>
            h < length (issued s) \<and> issued s ! h = k
            \<and> (promise s h = None
               \<or> promise s h = Some (Rejected (SocketError ''ERR_SOCKET_BAD_PORT''))
               \<or> promise s h = Some (Rejected (SocketError ''ERR_SOCKET_DGRAM_NOT_RUNNING'')))"
  proof
    assume m: "(k, h) \<in> set (pendingCommands s)"
    from i have "distinct (map fst (pendingCommands s))" by (simp add: pending_inv_def)
    with m have "map_of (pendingCommands s) k = Some h" by simp
    from pending_inv_entry[OF i this]
    show "h < length (issued s) \<and> issued s ! h = k
            \<and> (promise s h = None
               \<or> promise s h = Some (Rejected (SocketError ''ERR_SOCKET_BAD_PORT''))
               \<or> promise s h = Some (Rejected (SocketError ''ERR_SOCKET_DGRAM_NOT_RUNNING'')))"
      by (auto simp: sync_rejection_def)
  qed
  have b: "valid_port (port cfg) \<and> Close \<notin> set evs \<and> (k, h) \<in> set (pendingCommands s)
         \<longrightarrow> promise s h = None"
  proof
    assume h: "valid_port (port cfg) \<and> Close \<notin> set evs \<and> (k, h) \<in> set (pendingCommands s)"
    then have "\<forall>(k, h) \<in> set (pendingCommands s). h \<notin> fst ` set (settled s)"
      unfolding assms using open_run by blast
    with h have "h \<notin> fst ` set (settled s)" by blast
    then show "promise s h = None" by (simp add: promise_def map_of_eq_None_iff)
  qed
  have new: "map_of (settled s) (length (issued s)) = None"
  proof -
    from i have "length (issued s) \<notin> fst ` set (settled s)" by (auto simp: pending_inv_def)
    then show ?thesis by (simp add: map_of_eq_None_iff)
  qed
  have c: "get_prop (commandWithId c gid) ''id'' = Some (JStr gid)"
    by (simp add: commandWithId_def split: option.splits)
  have d: "issued (snd (sendCommand c gid s)) = issued s @ [gid]"
    by (simp add: sendCommand_fields)
  have e: "map_of (pendingCommands (snd (sendCommand c gid s))) gid = Some (length (issued s))"
    by (simp add: sendCommand_fields update_conv')
  have f: "gid \<notin> fst ` set (pendingCommands s)
         \<longrightarrow> pendingCommands (snd (sendCommand c gid s))
               = pendingCommands s @ [(gid, length (issued s))]"
    by (simp add: sendCommand_fields update_fresh)
  have g: "send_throws s = None
         \<longrightarrow> sent (snd (sendCommand c gid s))
               = sent s @ [(commandWithId c gid, port (config s), ip (config s))]
             \<and> promise (snd (sendCommand c gid s)) (length (issued s)) = None"
    using new by (simp add: sendCommand_fields promise_def)
  have h: "send_throws s = Some e
         \<longrightarrow> sent (snd (sendCommand c gid s)) = sent s
             \<and> promise (snd (sendCommand c gid s)) (length (issued s)) = Some (Rejected e)"
    using new by (simp add: sendCommand_fields promise_def map_add_def)
  show ?thesis using a b c d e f g h by blast
qed

text \<open>One command in flight, and a second one with another identifier; the same on a
  proxy whose port the socket refuses.\<close>

theorem C2_table_invariant_witness:
  "(''k3'', 0) \<in> set (pendingCommands (run [Send ping_command ''k3''] (SmartBulb_new bulb_config)))
   \<and> valid_port (port bulb_config) \<and> Close \<notin> set [Send ping_command ''k3'']
   \<and> ''q7'' \<notin> fst ` set (pendingCommands (run [Send ping_command ''k3''] (SmartBulb_new bulb_config)))
   \<and> send_throws (run [Send ping_command ''k3''] (SmartBulb_new bulb_config)) = None
   \<and> send_throws (run [Send ping_command ''k3''] (SmartBulb_new bad_port_config))
        = Some (SocketError ''ERR_SOCKET_BAD_PORT'')
   \<and> promise (run [Send ping_command ''k3''] (SmartBulb_new bulb_config)) 0 = None
   \<and> pendingCommands (snd (sendCommand status_command ''q7''
        (run [Send ping_command ''k3''] (SmartBulb_new bulb_config))))
      = [(''k3'', 0), (''q7'', 1)]
   \<and> promise (snd (sendCommand status_command ''q7''
        (run [Send ping_command ''k3''] (SmartBulb_new bulb_config)))) 1 = None
   \<and> promise (snd (sendCommand status_command ''q7''
        (run [Send ping_command ''k3''] (SmartBulb_new bad_port_config)))) 1
      = Some (Rejected (SocketError ''ERR_SOCKET_BAD_PORT''))"
proof -
  have m: "(''k3'', 0) \<in> set (pendingCommands (run [Send ping_command ''k3''] (SmartBulb_new bulb_config)))"
    by (simp add: eval_defs)
  have v: "valid_port (port bulb_config)" "Close \<notin> set [Send ping_command ''k3'']"
    by (simp_all add: valid_port_def bulb_config_def)
  have f: "''q7'' \<notin> fst ` set (pendingCommands (run [Send ping_command ''k3''] (SmartBulb_new bulb_config)))"
    by (simp add: eval_defs)
  have t: "send_throws (run [Send ping_command ''k3''] (SmartBulb_new bulb_config)) = None"
    by (simp add: eval_defs)
  have t': "send_throws (run [Send ping_command ''k3''] (SmartBulb_new bad_port_config))
        = Some (SocketError ''ERR_SOCKET_BAD_PORT'')"
    by (simp add: eval_defs)
  have p: "pendingCommands (run [Send ping_command ''k3''] (SmartBulb_new bulb_config)) = [(''k3'', 0)]"
    by (simp add: eval_defs)
  have l: "length (issued (run [Send ping_command ''k3''] (SmartBulb_new bulb_config))) = 1"
    "length (issued (run [Send ping_command ''k3''] (SmartBulb_new bad_port_config))) = 1"
    by (simp_all add: eval_defs)
  from C2_table_invariant[OF refl, of "''k3''" 0 "[Send ping_command ''k3'']" bulb_config
      status_command "''q7''"]
    C2_table_invariant[OF refl, of "''k3''" 0 "[Send ping_command ''k3'']" bad_port_config
      status_command "''q7''" "SocketError ''ERR_SOCKET_BAD_PORT''"] m v f t t' p l
  show ?thesis by simp
qed

text \<open>
  The identifier is not checked against the table: a second command that draws the
  identifier of a command in flight takes over its entry, while the first call is
  still unsettled. And an entry can belong to a call that is settled already: with
  port 0 the send throws, the call is rejected, and its entry stays in the table.
\<close>

theorem C2_counterexample:
  "map_of (pendingCommands (run [Send ping_command ''k3''] (SmartBulb_new bulb_config))) ''k3''
     = Some 0
   \<and> promise (run [Send ping_command ''k3''] (SmartBulb_new bulb_config)) 0 = None
   \<and> pendingCommands (snd (sendCommand status_command ''k3''
        (run [Send ping_command ''k3''] (SmartBulb_new bulb_config)))) = [(''k3'', 1)]
   \<and> promise (snd (sendCommand status_command ''k3''
        (run [Send ping_command ''k3''] (SmartBulb_new bulb_config)))) 0 = None
   \<and> pendingCommands (run [Send ping_command ''k3''] (SmartBulb_new bad_port_config))
        = [(''k3'', 0)]
   \<and> promise (run [Send ping_command ''k3''] (SmartBulb_new bad_port_config)) 0
        = Some (Rejected (SocketError ''ERR_SOCKET_BAD_PORT''))"
  by (simp add: eval_defs)

subsection \<open>Datagrams that match no pending command\<close>

lemma names_pending_needs_object:
  "\<not> names_pending JNull s" "\<not> names_pending (JBool b) s" "\<not> names_pending (JNum n) s"
  "\<not> names_pending (JStr str) s" "\<not> names_pending (JArr xs) s"
  "get_prop (JObj kvs) ''id'' = None \<Longrightarrow> \<not> names_pending (JObj kvs) s"
  by (simp_all add: names_pending_def)

text \<open>
  Claim C9, amended. A datagram that does not parse as JSON, or that parses to a value
  whose \<^verbatim>\<open>id\<close> is not a non-empty string naming an entry of the in-flight table, leaves
  the table, the promises, the timers and the datagrams sent as they were. That
  covers \<^verbatim>\<open>null\<close>, booleans, numbers, strings, arrays and objects without an \<^verbatim>\<open>id\<close>.
\<close>

theorem C9_unmatched_datagram:
  assumes "case parsed of None \<Rightarrow> True | Some v \<Rightarrow> \<not> names_pending v s"
  shows "pendingCommands (on_message parsed s) = pendingCommands s
    \<and> settled (on_message parsed s) = settled s
    \<and> timers (on_message parsed s) = timers s
    \<and> sent (on_message parsed s) = sent s
    \<and> \<not> names_pending JNull s \<and> \<not> names_pending (JBool b) s \<and> \<not> names_pending (JNum n) s
    \<and> \<not> names_pending (JStr str) s \<and> \<not> names_pending (JArr xs) s
    \<and> (get_prop (JObj kvs) ''id'' = None \<longrightarrow> \<not> names_pending (JObj kvs) s)"
proof -
  have core: "pendingCommands (on_message parsed s) = pendingCommands s
    \<and> settled (on_message parsed s) = settled s
    \<and> timers (on_message parsed s) = timers s
    \<and> sent (on_message parsed s) = sent s"
  proof (cases parsed)
    case None
    then show ?thesis by (simp add: on_message_def)
  next
    case (Some v)
    with assms have n: "\<not> names_pending v s" by simp
    show ?thesis
      unfolding Some on_message_cases
      using handleResponse_nomatch[OF n] by simp
  qed
  from core show ?thesis by (simp add: names_pending_needs_object)
qed

text \<open>An array arrives while a command is in flight.\<close>

theorem C9_unmatched_datagram_witness:
  "\<not> names_pending (JArr [JStr ''k3''])
        (run [Send ping_command ''k3''] (SmartBulb_new bulb_config))
   \<and> pendingCommands (on_message (Some (JArr [JStr ''k3'']))
        (run [Send ping_command ''k3''] (SmartBulb_new bulb_config))) = [(''k3'', 0)]
   \<and> settled (on_message (Some (JArr [JStr ''k3'']))
        (run [Send ping_command ''k3''] (SmartBulb_new bulb_config))) = []"
proof -
  have n: "\<not> names_pending (JArr [JStr ''k3''])
        (run [Send ping_command ''k3''] (SmartBulb_new bulb_config))"
    by (simp add: names_pending_def)
  then have h: "case Some (JArr [JStr ''k3'']) of None \<Rightarrow> True
        | Some v \<Rightarrow> \<not> names_pending v (run [Send ping_command ''k3''] (SmartBulb_new bulb_config))"
    by simp
  have p: "pendingCommands (run [Send ping_command ''k3''] (SmartBulb_new bulb_config)) = [(''k3'', 0)]"
    by (simp add: eval_defs)
  have q: "settled (run [Send ping_command ''k3''] (SmartBulb_new bulb_config)) = []"
    by (simp add: eval_defs)
  from C9_unmatched_datagram[OF h] n p q show ?thesis by simp
qed

text \<open>
  An object that lacks the \<^verbatim>\<open>success\<close> field of a response but carries the identifier
  of a command in flight is taken for its response: the entry is removed and the call
  is rejected with the default message.
\<close>

theorem C9_counterexample:
  "pendingCommands (run [Send ping_command ''k3''] (SmartBulb_new bulb_config)) = [(''k3'', 0)]
   \<and> get_prop (JObj [(''id'', JStr ''k3'')]) ''success'' = None
   \<and> pendingCommands (on_message (Some (JObj [(''id'', JStr ''k3'')]))
        (run [Send ping_command ''k3''] (SmartBulb_new bulb_config))) = []
   \<and> promise (on_message (Some (JObj [(''id'', JStr ''k3'')]))
        (run [Send ping_command ''k3''] (SmartBulb_new bulb_config))) 0
      = Some (Rejected (Error (JStr ''Unknown error'')))"
  by (simp add: eval_defs)

subsection \<open>The status before any exchange\<close>

lemma lastStatus_no_exchange: "no_exchange e \<Longrightarrow> lastStatus (step e s) = lastStatus s"
  by (cases e)
     (simp_all add: sendCommand_fields send_failed_def timer_fires_def settle_def
        pending_delete_def clearTimeout_def close_fields)

lemma lastStatus_run_no_exchange:
  "list_all no_exchange evs \<Longrightarrow> lastStatus (run evs s) = lastStatus s"
  unfolding run_def by (induction evs arbitrary: s) (simp_all add: lastStatus_no_exchange)

text \<open>
  Claim C10. Before any exchange with the device (the proxy is fresh, or has only
  sent commands, seen sends fail or timers fire, or been closed), \<open>getLastStatus\<close>
  returns exactly \<^verbatim>\<open>power = false\<close>, \<^verbatim>\<open>brightness = 0\<close>,
  \<^verbatim>\<open>color = {r: 255, g: 255, b: 255}\<close>, \<^verbatim>\<open>connected = false\<close>, and no
  \<^verbatim>\<open>temperature\<close> field.
\<close>

theorem C10_initial_status:
  assumes "list_all no_exchange evs"
  shows "getLastStatus (run evs (SmartBulb_new cfg)) =
           [ (''power'', JBool False),
             (''brightness'', JNum (Fin 0)),
             (''color'', JObj [(''r'', JNum (Fin 255)), (''g'', JNum (Fin 255)),
                               (''b'', JNum (Fin 255))]),
             (''connected'', JBool False) ]
       \<and> map_of (getLastStatus (run evs (SmartBulb_new cfg))) ''temperature'' = None"
  by (simp add: getLastStatus_def lastStatus_run_no_exchange[OF assms] SmartBulb_new_def)

text \<open>The fresh proxy, and a proxy whose only command timed out.\<close>

theorem C10_initial_status_witness:
  "list_all no_exchange []
   \<and> getLastStatus (SmartBulb_new bulb_config) =
           [ (''power'', JBool False),
             (''brightness'', JNum (Fin 0)),
             (''color'', JObj [(''r'', JNum (Fin 255)), (''g'', JNum (Fin 255)),
                               (''b'', JNum (Fin 255))]),
             (''connected'', JBool False) ]
   \<and> list_all no_exchange [Send ping_command ''k3'', TimerFires 0]
   \<and> map_of (getLastStatus (run [Send ping_command ''k3'', TimerFires 0]
                (SmartBulb_new bulb_config))) ''connected'' = Some (JBool False)"
proof -
  have a: "list_all no_exchange []" by simp
  have b: "list_all no_exchange [Send ping_command ''k3'', TimerFires 0]" by simp
  have r: "run [] (SmartBulb_new bulb_config) = SmartBulb_new bulb_config" by (simp add: run_def)
  from C10_initial_status[OF a, of bulb_config] C10_initial_status[OF b, of bulb_config] a b r
  show ?thesis by simp
qed

subsection \<open>Validation of brightness and colour\<close>

text \<open>A value that compares below the lower or above the upper bound is refused before
  anything is registered or sent; a finite brightness outside the range is such a
  value.\<close>

lemma setBrightness_out_of_range:
  "js_lt b (Fin 0) \<or> js_gt b (Fin 100) \<Longrightarrow>
   setBrightness b gid s = (Inl (Error (JStr ''Brightness must be between 0 and 100'')), s)"
  by (simp add: setBrightness_def)

lemma setBrightness_finite:
  "setBrightness (Fin q) gid s =
     (if q < 0 \<or> 100 < q
      then (Inl (Error (JStr ''Brightness must be between 0 and 100'')), s)
      else (Inr (length (issued s)),
            snd (sendCommand \<lparr> command = ''set_brightness'',
                    params = Some [(''brightness'', JNum (Fin q))] \<rparr> gid s)))"
  by (simp add: setBrightness_def js_gt_def sendCommand_def Let_def)

lemma setColor_out_of_range:
  "js_lt r (Fin 0) \<or> js_gt r (Fin 255) \<or> js_lt g (Fin 0) \<or> js_gt g (Fin 255)
     \<or> js_lt b (Fin 0) \<or> js_gt b (Fin 255) \<Longrightarrow>
   setColor r g b gid s = (Inl (Error (JStr ''RGB values must be between 0 and 255'')), s)"
  by (simp add: setColor_def)

text \<open>
  Claim C4 asks that every brightness outside \<open>[0, 100]\<close> and every colour with a
  channel outside \<open>[0, 255]\<close> fail before any network activity. The checks are written
  as \<^verbatim>\<open>x < lo || x > hi\<close>, which is false for \<open>NaN\<close>: \<open>setBrightness(NaN)\<close> and
  \<open>setColor(NaN, 0, 0)\<close> pass the validation, register a pending command and hand a
  datagram to the socket.
\<close>

theorem C4_NaN_passes_validation:
  "fst (setBrightness NaN ''k3'' (SmartBulb_new bulb_config)) = Inr 0
   \<and> pendingCommands (snd (setBrightness NaN ''k3'' (SmartBulb_new bulb_config))) = [(''k3'', 0)]
   \<and> sent (snd (setBrightness NaN ''k3'' (SmartBulb_new bulb_config))) =
        [(JObj [(''command'', JStr ''set_brightness''),
                (''params'', JObj [(''brightness'', JNum NaN)]),
                (''id'', JStr ''k3'')], Fin 4000, ''192.168.1.45'')]
   \<and> fst (setColor NaN (Fin 0) (Fin 0) ''k3'' (SmartBulb_new bulb_config)) = Inr 0
   \<and> pendingCommands (snd (setColor NaN (Fin 0) (Fin 0) ''k3'' (SmartBulb_new bulb_config)))
        = [(''k3'', 0)]
   \<and> length (sent (snd (setColor NaN (Fin 0) (Fin 0) ''k3'' (SmartBulb_new bulb_config)))) = 1"
  by (simp add: setBrightness_def setColor_def js_gt_def sendCommand_def Let_def
      SmartBulb_new_def bulb_config_def commandWithId_def send_throws_def valid_port_def)

subsection \<open>Status queries and pings\<close>

text \<open>
  Once the promise they await is settled, both methods return: \<open>ping\<close> a boolean that
  is true exactly for a resolved promise, \<open>getStatus\<close> a status. A timer that fires, a
  send that the socket reports as failed, and a reply with a falsy \<^verbatim>\<open>success\<close> whose
  error can be converted to a string all reject the promise.
\<close>

lemma getStatus_resume_Rejected:
  "getStatus_resume (Rejected e) s =
     (Inr (AList.update ''connected'' (JBool False) (lastStatus s)), s)"
  by (simp add: getStatus_resume_def getStatus_try_def await_def)

lemma getStatus_resume_returns: "\<exists>st. fst (getStatus_resume out s) = Inr st"
  by (cases out)
     (auto simp: getStatus_resume_def getStatus_try_def await_def Let_def split: sum.splits)

lemma ping_resume_eq: "ping_resume out = Inr (case out of Resolved v \<Rightarrow> True | Rejected e \<Rightarrow> False)"
  by (cases out) (simp_all add: ping_resume_def await_def)

lemma failure_is_absorbed:
  assumes "s = run evs (SmartBulb_new cfg)"
    and "map_of (pendingCommands s) k = Some h" and "k \<noteq> []" and "promise s h = None"
    and "get_prop r ''id'' = Some (JStr k)"
    and "s' = timer_fires h s \<or> s' = send_failed h e s
           \<or> (s' = on_message (Some r) s \<and> \<not> truthy (get_prop r ''success'')
               \<and> stringifiable (error_or_default r))"
  shows "\<exists>err. promise s' h = Some (Rejected err)
            \<and> ping_resume (Rejected err) = Inr False
            \<and> getStatus_resume (Rejected err) s'
                = (Inr (AList.update ''connected'' (JBool False) (lastStatus s')), s')"
proof -
  have i: "pending_inv s" unfolding assms(1) by (rule pending_inv_run)
  have none: "map_of (settled s) h = None" using assms(4) by (simp add: promise_def)
  have om: "on_message (Some r) s = snd (handleResponse r s)"
    using assms(5) by (rule on_message_object)
  note m = handleResponse_match[OF assms(2,3,5)]
  have rej: "\<exists>err. promise s' h = Some (Rejected err)"
    using assms(6)
  proof (elim disjE conjE)
    assume "s' = timer_fires h s"
    then show ?thesis
      using none by (simp add: promise_def timer_fires_entry(1)[OF i assms(2)] map_add_def)
  next
    assume "s' = send_failed h e s"
    then show ?thesis
      using none by (simp add: promise_def send_failed_entry(1)[OF i assms(2)] map_add_def)
  next
    assume "s' = on_message (Some r) s" "\<not> truthy (get_prop r ''success'')"
      "stringifiable (error_or_default r)"
    then show ?thesis
      using none by (simp add: om promise_def m(1) map_add_def)
  qed
  then obtain err where err: "promise s' h = Some (Rejected err)" by blast
  then show ?thesis by (simp add: ping_resume_eq getStatus_resume_Rejected)
qed

text \<open>A call that has been abandoned stays unsettled whatever happens next, short of
  the socket reporting its send as failed.\<close>

lemma snd_update: "snd ` set (AList.update k v al) \<subseteq> insert v (snd ` set al)"
proof
  fix x assume "x \<in> snd ` set (AList.update k v al)"
  then obtain k' where "(k', x) \<in> set (AList.update k v al)" by force
  from set_update_cases[OF this] show "x \<in> insert v (snd ` set al)" by force
qed

lemma snd_delete: "snd ` set (AList.delete k al) \<subseteq> snd ` set al"
  by (auto simp: AList.delete_eq)

lemma abandoned_remove:
  assumes "abandoned h s" "h' \<noteq> h"
  shows "abandoned h (settle h' out (pending_delete k (clearTimeout h' s)))"
  using assms snd_delete[of k "pendingCommands s"]
  unfolding abandoned_def settle_def pending_delete_def clearTimeout_def
  by auto

lemma abandoned_same:
  assumes "abandoned h s" "issued s' = issued s" "timers s' = timers s"
    "settled s' = settled s" "pendingCommands s' = pendingCommands s"
  shows "abandoned h s'"
  using assms by (simp add: abandoned_def)

lemma abandoned_handleResponse:
  assumes "abandoned h s"
  shows "abandoned h (snd (handleResponse r s))"
proof (cases "names_pending r s")
  case False
  show ?thesis
    by (rule abandoned_same[OF assms]) (simp_all add: handleResponse_nomatch[OF False])
next
  case True
  then obtain k h' where r: "get_prop r ''id'' = Some (JStr k)" "k \<noteq> []"
    "map_of (pendingCommands s) k = Some h'"
    using names_pending_cases by blast
  from r(3) have "(k, h') \<in> set (pendingCommands s)" by (rule map_of_SomeD)
  then have "h' \<in> snd ` set (pendingCommands s)" by force
  with assms have ne: "h' \<noteq> h" by (auto simp: abandoned_def)
  note m = handleResponse_match[OF r(3,2,1)]
  from assms ne snd_delete[of k "pendingCommands s"] show ?thesis
    unfolding abandoned_def m by auto
qed

lemma abandoned_step:
  assumes "abandoned h s" "\<forall>e'. e \<noteq> SendFailed h e'"
  shows "abandoned h (step e s)"
proof (cases e)
  case (Send c gid)
  from assms(1) snd_update[of gid "length (issued s)" "pendingCommands s"] Send show ?thesis
    unfolding abandoned_def by (auto simp: sendCommand_fields split: option.splits)
next
  case (SendFailed h' e')
  with assms(2) have "h' \<noteq> h" by auto
  with assms(1) SendFailed show ?thesis
    by (simp add: send_failed_def abandoned_remove)
next
  case (TimerFires h')
  show ?thesis
  proof (cases "h' \<in> timers s \<and> h' < length (issued s)")
    case True
    with assms(1) have "h' \<noteq> h" by (auto simp: abandoned_def)
    with assms(1) TimerFires True show ?thesis
      by (simp add: timer_fires_def abandoned_remove)
  next
    case False
    have "timer_fires h' s = s"
      unfolding timer_fires_def by (rule if_not_P) (rule False)
    with assms(1) TimerFires show ?thesis by simp
  qed
next
  case (Message p)
  show ?thesis
  proof (cases p)
    case None
    with Message assms(1) show ?thesis by (simp add: on_message_def)
  next
    case (Some v)
    with Message assms(1) abandoned_handleResponse[OF assms(1), of v] show ?thesis
      by (simp add: on_message_cases)
  qed
next
  case (GetStatusResumes h')
  have "abandoned h (snd (getStatus_resume out s))" for out
    by (rule abandoned_same[OF assms(1)]) (simp_all add: getStatus_resume_fields)
  with GetStatusResumes assms(1) show ?thesis
    by (cases "promise s h'") simp_all
next
  case Close
  have "fst ` set (map (\<lambda>(k, h). (h, Rejected (Error (JStr ''Connection closed''))))
                       (pendingCommands s)) = snd ` set (pendingCommands s)"
    by force
  with assms(1)
  have "h \<notin> fst ` set (settled s @ map (\<lambda>(k, h). (h, Rejected (Error (JStr ''Connection closed''))))
                                         (pendingCommands s))"
    unfolding abandoned_def by (simp only: set_append image_Un Un_iff) blast
  with assms(1) Close show ?thesis
    unfolding abandoned_def by (simp add: close_fields)
qed

lemma abandoned_stays_unsettled:
  assumes "abandoned h s" "\<forall>e \<in> set evs. \<forall>e'. e \<noteq> SendFailed h e'"
  shows "promise (run evs s) h = None"
proof -
  have "abandoned h s \<Longrightarrow> \<forall>e \<in> set evs. \<forall>e'. e \<noteq> SendFailed h e'
        \<Longrightarrow> abandoned h (fold step evs s)" for s
    by (induction evs arbitrary: s) (simp_all add: abandoned_step)
  with assms have "abandoned h (run evs s)" by (simp add: run_def)
  then show ?thesis by (simp add: abandoned_def promise_def map_of_eq_None_iff)
qed

text \<open>
  Claim C5 asks that \<open>getStatus\<close> and \<open>ping\<close> return the stale status, or false, when
  the device answers with \<^verbatim>\<open>success = false\<close>. Let the reply to a \<open>ping\<close> or a \<open>getStatus\<close>
  in flight report the failure with an object whose own \<^verbatim>\<open>toString\<close> is not a function
  as its \<^verbatim>\<open>error\<close>. Building the error throws inside \<open>handleResponse\<close>, after the entry
  has been deleted and the timer cleared: \<open>reject\<close> is never called, no timer, entry or
  call refers to the promise any more, and it is still unsettled after the timer's
  deadline, a second reply and \<open>close\<close>. The method that awaits it never returns.
\<close>

theorem C5_reply_with_unprintable_error:
  "fst (ping_send ''k3'' (SmartBulb_new bulb_config)) = 0
   \<and> map_of (pendingCommands (snd (ping_send ''k3'' (SmartBulb_new bulb_config)))) ''k3'' = Some 0
   \<and> get_prop (odd_error_reply ''k3'') ''id'' = Some (JStr ''k3'')
   \<and> get_prop (odd_error_reply ''k3'') ''success'' = Some (JBool False)
   \<and> fst (handleResponse (odd_error_reply ''k3'') (snd (ping_send ''k3'' (SmartBulb_new bulb_config))))
       = Inl TypeError
   \<and> promise (on_message (Some (odd_error_reply ''k3''))
                (snd (ping_send ''k3'' (SmartBulb_new bulb_config)))) 0 = None
   \<and> abandoned 0 (on_message (Some (odd_error_reply ''k3''))
                (snd (ping_send ''k3'' (SmartBulb_new bulb_config))))
   \<and> promise (run [TimerFires 0, Message (Some (ok_reply ''k3'')), Close]
                (on_message (Some (odd_error_reply ''k3''))
                   (snd (ping_send ''k3'' (SmartBulb_new bulb_config))))) 0 = None
   \<and> fst (getStatus_send ''k3'' (SmartBulb_new bulb_config)) = 0
   \<and> fst (handleResponse (odd_error_reply ''k3'')
            (snd (getStatus_send ''k3'' (SmartBulb_new bulb_config)))) = Inl TypeError
   \<and> promise (on_message (Some (odd_error_reply ''k3''))
                (snd (getStatus_send ''k3'' (SmartBulb_new bulb_config)))) 0 = None
   \<and> abandoned 0 (on_message (Some (odd_error_reply ''k3''))
                (snd (getStatus_send ''k3'' (SmartBulb_new bulb_config))))
   \<and> promise (run [TimerFires 0, Message (Some (ok_reply ''k3'')), Close]
                (on_message (Some (odd_error_reply ''k3''))
                   (snd (getStatus_send ''k3'' (SmartBulb_new bulb_config))))) 0 = None"
  by (simp add: ping_send_def getStatus_send_def abandoned_def odd_error_reply_def eval_defs
      close_loop.simps)

subsection \<open>The cached status\<close>

lemma map_of_updateStatus:
  "map_of (lastStatus (updateStatus d s)) key =
     (if key = ''connected'' then Some (JBool True)
      else (case map_of (spread (Some d)) key of
              Some v \<Rightarrow> Some v
            | None \<Rightarrow> map_of (lastStatus s) key))"
  by (simp add: updateStatus_def update_conv' merge_conv' map_add_def)

lemma lastStatus_match_pending: "lastStatus (snd (match_pending r s)) = lastStatus s"
proof (cases "names_pending r s")
  case False
  then show ?thesis by (simp add: match_pending_nomatch)
next
  case True
  then obtain k h where r: "get_prop r ''id'' = Some (JStr k)" "k \<noteq> []"
    "map_of (pendingCommands s) k = Some h"
    using names_pending_cases by blast
  show ?thesis
    by (simp add: match_pending_match[OF r(3,2,1)] settle_def pending_delete_def
        clearTimeout_def)
qed

lemma match_pending_returns:
  assumes "names_pending r s \<and> \<not> truthy (get_prop r ''success'')
             \<longrightarrow> stringifiable (error_or_default r)"
  shows "fst (match_pending r s) = Inr ()"
proof (cases "names_pending r s")
  case False
  then show ?thesis by (simp add: match_pending_nomatch)
next
  case True
  then obtain k h where r: "get_prop r ''id'' = Some (JStr k)" "k \<noteq> []"
    "map_of (pendingCommands s) k = Some h"
    using names_pending_cases by blast
  from assms True show ?thesis
    by (simp add: match_pending_match[OF r(3,2,1)])
qed

lemma handleResponse_data:
  assumes "get_prop r ''data'' = Some d" "typeof_object d" "d \<noteq> JNull"
    and "names_pending r s \<and> \<not> truthy (get_prop r ''success'')
           \<longrightarrow> stringifiable (error_or_default r)"
  shows "lastStatus (snd (handleResponse r s)) = lastStatus (updateStatus d s)"
proof -
  from assms(2,3) have t: "truthy (Some d)" by (cases d) simp_all
  obtain s1 where m: "match_pending r s = (Inr (), s1)"
    using match_pending_returns[OF assms(4)] by (cases "match_pending r s") auto
  with lastStatus_match_pending[of r s] have l: "lastStatus s1 = lastStatus s" by simp
  show ?thesis
    using assms(1,2) t l
    by (simp add: handleResponse_def m status_push_def updateStatus_def)
qed

text \<open>
  Claim C6, amended. Let a datagram \<open>r\<close> carry an object \<open>d\<close> as its \<^verbatim>\<open>data\<close>, whatever its
  \<^verbatim>\<open>success\<close> and whether or not it answers a pending command (but if it reports the
  failure of a pending command, let its error be convertible to a string). It is
  merged into the cache: \<^verbatim>\<open>connected\<close> becomes true, a field that \<open>d\<close> has takes the
  value of \<open>d\<close>, and every other field keeps its value; a \<open>getStatus\<close> that resumes on
  that reply as its resolution returns and caches the same status. A \<open>getStatus\<close>
  that resumes on a rejection returns the status cached at that moment with
  \<^verbatim>\<open>connected\<close> false and every other field unchanged, and does not write the cache.
\<close>

theorem C6_connected_flag:
  assumes "get_prop r ''data'' = Some d" and "typeof_object d" and "d \<noteq> JNull"
    and "names_pending r s \<and> \<not> truthy (get_prop r ''success'')
           \<longrightarrow> stringifiable (error_or_default r)"
  shows "map_of (getLastStatus (on_message (Some r) s)) key =
           (if key = ''connected'' then Some (JBool True)
            else (case map_of (spread (Some d)) key of
                    Some v \<Rightarrow> Some v
                  | None \<Rightarrow> map_of (getLastStatus s) key))
    \<and> (\<exists>st. getStatus_resume (Resolved r) (on_message (Some r) s)
                = (Inr st, on_message (Some r) s\<lparr> lastStatus := st \<rparr>)
           \<and> map_of st key = map_of (getLastStatus (on_message (Some r) s)) key)
    \<and> (\<exists>st. getStatus_resume (Rejected e) s2 = (Inr st, s2)
           \<and> map_of st ''connected'' = Some (JBool False)
           \<and> (key \<noteq> ''connected'' \<longrightarrow> map_of st key = map_of (getLastStatus s2) key))
    \<and> getLastStatus (snd (getStatus_resume (Rejected e) s2)) = getLastStatus s2"
proof -
  have om: "on_message (Some r) s = snd (handleResponse r s)"
    using assms(1) by (rule on_message_object)
  from assms(2,3) have t: "truthy (Some d)" by (cases d) simp_all
  have a: "map_of (getLastStatus (on_message (Some r) s)) key =
           (if key = ''connected'' then Some (JBool True)
            else (case map_of (spread (Some d)) key of
                    Some v \<Rightarrow> Some v
                  | None \<Rightarrow> map_of (getLastStatus s) key))"
    unfolding getLastStatus_def
    by (simp add: om handleResponse_data[OF assms] map_of_updateStatus)
  from assms(1) have nn: "r \<noteq> JNull" by (cases r) simp_all
  let ?s1 = "on_message (Some r) s"
  have g: "getStatus_resume (Resolved r) ?s1 = (Inr (lastStatus (updateStatus d ?s1)), updateStatus d ?s1)"
    using assms(1) nn t
    by (simp add: getStatus_resume_def getStatus_try_def await_def Let_def)
  have u: "updateStatus d ?s1 = ?s1\<lparr> lastStatus := lastStatus (updateStatus d ?s1) \<rparr>"
    by (simp add: updateStatus_def)
  have k: "map_of (lastStatus (updateStatus d ?s1)) key = map_of (getLastStatus ?s1) key"
    using a unfolding getLastStatus_def
    by (simp add: map_of_updateStatus split: option.splits)
  have b: "\<exists>st. getStatus_resume (Resolved r) ?s1 = (Inr st, ?s1\<lparr> lastStatus := st \<rparr>)
           \<and> map_of st key = map_of (getLastStatus ?s1) key"
    using g u k by metis
  have c: "\<exists>st. getStatus_resume (Rejected e) s2 = (Inr st, s2)
           \<and> map_of st ''connected'' = Some (JBool False)
           \<and> (key \<noteq> ''connected'' \<longrightarrow> map_of st key = map_of (getLastStatus s2) key)"
    unfolding getLastStatus_def by (simp add: getStatus_resume_Rejected update_conv')
  have d: "getLastStatus (snd (getStatus_resume (Rejected e) s2)) = getLastStatus s2"
    by (simp add: getStatus_resume_Rejected)
  from a b c d show ?thesis by blast
qed

text \<open>The reply to a status query reports the power and the brightness; a reply that
  reports a failure carries status data all the same.\<close>

theorem C6_connected_flag_witness:
  "get_prop (status_reply ''k3'') ''data''
     = Some (JObj [(''power'', JBool True), (''brightness'', JNum (Fin 50))])
   \<and> truthy (get_prop (status_reply ''k3'') ''success'')
   \<and> map_of (getLastStatus (on_message (Some (status_reply ''k3''))
               (run [Send status_command ''k3''] (SmartBulb_new bulb_config)))) ''connected''
       = Some (JBool True)
   \<and> map_of (getLastStatus (on_message (Some (status_reply ''k3''))
               (run [Send status_command ''k3''] (SmartBulb_new bulb_config)))) ''power''
       = Some (JBool True)
   \<and> map_of (getLastStatus (on_message (Some (status_reply ''k3''))
               (run [Send status_command ''k3''] (SmartBulb_new bulb_config)))) ''color''
       = Some (JObj [(''r'', JNum (Fin 255)), (''g'', JNum (Fin 255)), (''b'', JNum (Fin 255))])
   \<and> names_pending (busy_reply ''k3'')
         (run [Send status_command ''k3''] (SmartBulb_new bulb_config))
   \<and> \<not> truthy (get_prop (busy_reply ''k3'') ''success'')
   \<and> stringifiable (error_or_default (busy_reply ''k3''))
   \<and> map_of (getLastStatus (on_message (Some (busy_reply ''k3''))
               (run [Send status_command ''k3''] (SmartBulb_new bulb_config)))) ''connected''
       = Some (JBool True)"
proof -
  have d: "get_prop (status_reply ''k3'') ''data''
     = Some (JObj [(''power'', JBool True), (''brightness'', JNum (Fin 50))])"
    by (simp add: status_reply_def)
  have o: "typeof_object (JObj [(''power'', JBool True), (''brightness'', JNum (Fin 50))])"
    by simp
  have n: "JObj [(''power'', JBool True), (''brightness'', JNum (Fin 50))] \<noteq> JNull"
    by simp
  have t: "truthy (get_prop (status_reply ''k3'') ''success'')"
    by (simp add: status_reply_def)
  then have x: "names_pending (status_reply ''k3'') s
                  \<and> \<not> truthy (get_prop (status_reply ''k3'') ''success'')
                \<longrightarrow> stringifiable (error_or_default (status_reply ''k3''))" for s
    by simp
  have l: "getLastStatus (run [Send status_command ''k3''] (SmartBulb_new bulb_config)) =
           [ (''power'', JBool False), (''brightness'', JNum (Fin 0)),
             (''color'', JObj [(''r'', JNum (Fin 255)), (''g'', JNum (Fin 255)),
                               (''b'', JNum (Fin 255))]),
             (''connected'', JBool False) ]"
    by (simp add: getLastStatus_def eval_defs)
  have d': "get_prop (busy_reply ''k3'') ''data'' = Some (JObj [(''power'', JBool True)])"
    by (simp add: busy_reply_def)
  have o': "typeof_object (JObj [(''power'', JBool True)])" by simp
  have n': "JObj [(''power'', JBool True)] \<noteq> JNull" by simp
  have np: "names_pending (busy_reply ''k3'')
              (run [Send status_command ''k3''] (SmartBulb_new bulb_config))"
    by (simp add: names_pending_def busy_reply_def eval_defs)
  have f: "\<not> truthy (get_prop (busy_reply ''k3'') ''success'')"
    by (simp add: busy_reply_def)
  have sg: "stringifiable (error_or_default (busy_reply ''k3''))"
    by (simp add: busy_reply_def error_or_default_def)
  then have x': "names_pending (busy_reply ''k3'')
                   (run [Send status_command ''k3''] (SmartBulb_new bulb_config))
                  \<and> \<not> truthy (get_prop (busy_reply ''k3'') ''success'')
                \<longrightarrow> stringifiable (error_or_default (busy_reply ''k3''))"
    by simp
  note c = C6_connected_flag[OF d o n x,
      of "run [Send status_command ''k3''] (SmartBulb_new bulb_config)"]
  note c' = C6_connected_flag[OF d' o' n' x', of "''connected''"]
  from c[of "''connected''"] c[of "''power''"] c[of "''color''"] c' d t l np f sg
  show ?thesis by simp
qed

text \<open>
  The cached flag is not set false by a failed status query: after a successful
  exchange, a second status query times out and \<open>getStatus\<close> resumes on the
  rejection, and \<open>getLastStatus\<close> still reports \<^verbatim>\<open>connected\<close> true.
\<close>

theorem C6_counterexample:
  "promise (run [Send status_command ''k3'', Message (Some (status_reply ''k3'')),
                 Send status_command ''q7'', TimerFires 1] (SmartBulb_new bulb_config)) 1
     = Some (Rejected (Error (JStr ''Command timeout'')))
   \<and> map_of (getLastStatus (run [Send status_command ''k3'', Message (Some (status_reply ''k3'')),
                 Send status_command ''q7'', TimerFires 1, GetStatusResumes 1]
                 (SmartBulb_new bulb_config))) ''connected''
       = Some (JBool True)"
  by (simp add: getLastStatus_def status_reply_def status_command_def getStatus_resume_Rejected
      eval_defs)

subsection \<open>Colours in hexadecimal\<close>















subsection \<open>Discovery\<close>


















end
